theory Spec2Isabelle
  imports Complex_Main "HOL-Library.Char_ord" "HOL-Library.List_Lexorder" "HOL-Library.AList"
    "HOL-Library.Multiset"
begin

chapter \<open>Streaming tick pipeline, rolling analytics and alerting: a model of the Python code\<close>

text \<open>
  Conventions of the embedding.
  \<^item> Python floats are modelled as HOL reals; a float that is no number, NaN (a missing
    value), is \<open>None\<close> of \<open>real option\<close>, and so is an infinity where a division by zero
    can produce one.
  \<^item> Python integers (timestamps, windows, limits) are \<open>int\<close>; where an integer is handed
    to SQLite or turned into a datetime, the 64-bit range check is written out.
  \<^item> A raised exception is \<open>Inl\<close> of a sum type, a normal return is \<open>Inr\<close>.
  \<^item> Calls into pandas, statsmodels, sklearn and the interpreter's \<open>eval\<close> are either
    modelled by the documented behaviour of the routine or taken as a parameter.
  \<^item> A dict that a callee may store into is passed in and returned.
\<close>

section \<open>Definitions\<close>

subsection \<open>config.py\<close>

definition TIMEFRAMES :: "(string \<times> int) list" where
  "TIMEFRAMES = [(''1s'', 1), (''1m'', 60), (''5m'', 300)]"

text \<open>The exceptions that occur; \<open>LibraryError\<close> is any exception of a library routine.\<close>

datatype error =
    ValueError | InvalidIndexError | LibraryError
  | SyntaxError | NameError | AttributeError | TypeError | ZeroDivisionError | IndexError
  | OverflowError | OutOfBoundsDatetime

subsection \<open>backend/sampler.py: DataSampler.resample_ticks\<close>

text \<open>A row of the tick frame: columns timestamp (ms), symbol, price, size.\<close>

record tick =
  timestamp :: int
  symbol :: string
  price :: real
  tick_size :: real

text \<open>A row of the result frame.\<close>

record bar =
  bar_timestamp :: int
  bar_symbol :: string
  bar_open :: real
  bar_high :: real
  bar_low :: real
  bar_close :: real
  bar_volume :: real
  trade_count :: nat

text \<open>
  A row of the frame before \<open>result.dropna()\<close>: the four price aggregates of a bin
  without ticks are NaN, its volume and count are 0.
\<close>

record raw_bar =
  raw_timestamp :: int
  raw_symbol :: string
  raw_open :: "real option"
  raw_high :: "real option"
  raw_low :: "real option"
  raw_close :: "real option"
  raw_volume :: real
  raw_trade_count :: nat

text \<open>
  pandas \<open>resample(f'{interval_seconds}s')\<close> with its defaults: bins are closed and
  labelled on the left and anchored at midnight of the day of the first timestamp
  (\<open>origin='start_day'\<close>); every bin from the one holding the first timestamp to the one
  holding the last is produced, also the bins without ticks.
\<close>

definition day_ms :: int where
  "day_ms = 86400000"

definition bin_origin :: "int \<Rightarrow> int" where
  "bin_origin first = (first div day_ms) * day_ms"

definition first_edge :: "int \<Rightarrow> int \<Rightarrow> int" where
  "first_edge step first = first - ((first - bin_origin first) mod step)"

definition bin_labels :: "int \<Rightarrow> int \<Rightarrow> int \<Rightarrow> int list" where
  "bin_labels step first lst =
     (let lo = first_edge step first
      in map (\<lambda>k. lo + int k * step) [0 ..< nat ((lst - lo) div step) + 1])"

definition bin_ticks :: "int \<Rightarrow> int \<Rightarrow> tick list \<Rightarrow> tick list" where
  "bin_ticks step e g = filter (\<lambda>t. e \<le> timestamp t \<and> timestamp t < e + step) g"

text \<open>The aggregations \<open>first\<close>, \<open>max\<close>, \<open>min\<close>, \<open>last\<close>: NaN on an empty bin.\<close>

definition agg_first :: "real list \<Rightarrow> real option" where
  "agg_first ps = (case ps of [] \<Rightarrow> None | p # _ \<Rightarrow> Some p)"

definition agg_last :: "real list \<Rightarrow> real option" where
  "agg_last ps = (if ps = [] then None else Some (last ps))"

definition agg_max :: "real list \<Rightarrow> real option" where
  "agg_max ps = (if ps = [] then None else Some (Max (set ps)))"

definition agg_min :: "real list \<Rightarrow> real option" where
  "agg_min ps = (if ps = [] then None else Some (Min (set ps)))"

definition aggregate_bin :: "int \<Rightarrow> string \<Rightarrow> tick list \<Rightarrow> int \<Rightarrow> raw_bar" where
  "aggregate_bin step key s e =
     (let b = bin_ticks step e s
      in \<lparr> raw_timestamp = e, raw_symbol = key,
           raw_open = agg_first (map price b), raw_high = agg_max (map price b),
           raw_low = agg_min (map price b), raw_close = agg_last (map price b),
           raw_volume = sum_list (map tick_size b), raw_trade_count = length b \<rparr>)"

text \<open>
  One symbol's group. \<open>resample\<close> first sorts the group by its datetime index with a
  stable sort, so \<open>first\<close> and \<open>last\<close> of ticks with equal timestamps follow the order of
  the input frame.
\<close>

definition resample_group :: "int \<Rightarrow> string \<Rightarrow> tick list \<Rightarrow> raw_bar list" where
  "resample_group step key g =
     (case sort_key timestamp g of
        [] \<Rightarrow> []
      | t # ts \<Rightarrow> map (aggregate_bin step key (t # ts))
                    (bin_labels step (timestamp t) (timestamp (last (t # ts)))))"

definition dropna_bar :: "raw_bar \<Rightarrow> bar option" where
  "dropna_bar r =
     (case (raw_open r, raw_high r, raw_low r, raw_close r) of
        (Some op, Some hi, Some lo, Some cl) \<Rightarrow>
          Some \<lparr> bar_timestamp = raw_timestamp r, bar_symbol = raw_symbol r,
                 bar_open = op, bar_high = hi, bar_low = lo, bar_close = cl,
                 bar_volume = raw_volume r, trade_count = raw_trade_count r \<rparr>
      | _ \<Rightarrow> None)"

text \<open>\<open>ticks.groupby('symbol')\<close> visits the symbols in sorted order.\<close>

definition group_keys :: "tick list \<Rightarrow> string list" where
  "group_keys ticks = sort (remdups (map symbol ticks))"

text \<open>
  A datetime of pandas is a 64-bit signed count of nanoseconds, the least count standing for
  NaT. \<open>pd.to_datetime(ticks['timestamp'], unit='ms')\<close> raises OutOfBoundsDatetime when the
  nanoseconds of a timestamp do not fit, that is for a timestamp below -9223372036854 or
  above 9223372036854.
\<close>

definition datetime_ms :: "int \<Rightarrow> bool" where
  "datetime_ms t = (- (2 ^ 63) < t * 1000000 \<and> t * 1000000 < 2 ^ 63)"

text \<open>
  \<open>resample\<close> computes two more datetimes for a group with the first timestamp \<open>first\<close>
  and the last timestamp \<open>lst\<close>: the midnight of the day of \<open>first\<close>, and the end of
  the bin that holds \<open>lst\<close>. The bars below are those of a computation that stays inside
  the datetimes; a group for which one of the two is outside gets no bars here, and the call
  is given the same exception.
\<close>

definition bins_in_range :: "int \<Rightarrow> int \<Rightarrow> int \<Rightarrow> bool" where
  "bins_in_range step first lst =
     (datetime_ms (bin_origin first)
      \<and> datetime_ms (lst - ((lst - bin_origin first) mod step) + step))"

definition group_in_range :: "int \<Rightarrow> tick list \<Rightarrow> bool" where
  "group_in_range step g =
     (case sort_key timestamp g of
        [] \<Rightarrow> True
      | t # ts \<Rightarrow> bins_in_range step (timestamp t) (timestamp (last (t # ts))))"

definition resample_ticks :: "tick list \<Rightarrow> string \<Rightarrow> error + bar list" where
  "resample_ticks ticks timeframe =
     (case map_of TIMEFRAMES timeframe of
        None \<Rightarrow> Inl ValueError
      | Some interval_seconds \<Rightarrow>
          if ticks = [] then Inr []
          else if \<not> list_all (\<lambda>t. datetime_ms (timestamp t)) ticks then Inl OutOfBoundsDatetime
          else if \<not> list_all (\<lambda>key. group_in_range (interval_seconds * 1000)
                                        (filter (\<lambda>t. symbol t = key) ticks))
                     (group_keys ticks)
          then Inl OutOfBoundsDatetime
          else Inr (List.map_filter dropna_bar
                 (concat (map (\<lambda>key. resample_group (interval_seconds * 1000) key
                                        (filter (\<lambda>t. symbol t = key) ticks))
                              (group_keys ticks)))))"

subsection \<open>Example ticks\<close>

text \<open>Two ticks of one symbol in the same minute, and the bar they aggregate to.\<close>

definition ticks0 :: "tick list" where
  "ticks0 = [\<lparr>timestamp = 120000, symbol = ''x'', price = 100, tick_size = 1\<rparr>,
             \<lparr>timestamp = 130000, symbol = ''x'', price = 105, tick_size = 2\<rparr>]"

definition bar0 :: bar where
  "bar0 = \<lparr>bar_timestamp = 120000, bar_symbol = ''x'', bar_open = 100,
           bar_high = 105, bar_low = 100, bar_close = 105, bar_volume = 3,
           trade_count = 2\<rparr>"

subsection \<open>pandas Series and DataFrame, as far as the analytics use them\<close>

text \<open>
  A float Series is the list of its (index label, value) rows; NaN is \<open>None\<close>.
  \<open>len(series)\<close> counts the rows, NaN or not.
\<close>

type_synonym series = "(int \<times> real option) list"

type_synonym frame2 = "(int \<times> real option \<times> real option) list"

definition series_get :: "series \<Rightarrow> int \<Rightarrow> real option" where
  "series_get s l = (case map_of s l of None \<Rightarrow> None | Some v \<Rightarrow> v)"

text \<open>
  \<open>pd.DataFrame({'p1': a, 'p2': b})\<close>: two Series with the same index are put side by
  side; otherwise each is reindexed to the sorted union of the two indexes, a label one of
  them lacks giving NaN there, and reindexing a Series whose index has duplicate labels
  raises.
\<close>

definition data_frame :: "series \<Rightarrow> series \<Rightarrow> error + frame2" where
  "data_frame a b =
     (if map fst a = map fst b then Inr (map2 (\<lambda>(l, u) (l', v). (l, u, v)) a b)
      else if distinct (map fst a) \<and> distinct (map fst b)
      then Inr (map (\<lambda>l. (l, series_get a l, series_get b l))
                    (sort (remdups (map fst a @ map fst b))))
      else Inl InvalidIndexError)"

text \<open>\<open>.dropna()\<close> on a two-column frame keeps the rows without NaN.\<close>

definition dropna :: "frame2 \<Rightarrow> (int \<times> real \<times> real) list" where
  "dropna fr =
     List.map_filter (\<lambda>(l, u, v). case (u, v) of (Some x, Some y) \<Rightarrow> Some (l, x, y) | _ \<Rightarrow> None) fr"

text \<open>
  Float arithmetic on \<open>real option\<close>: \<open>None\<close> propagates, and a zero divisor gives
  \<open>None\<close>. Where a division by zero can occur, \<open>None\<close> stands for every float that is
  not a finite number, NaN or an infinity: a sum, difference or product with such an operand
  is again not finite wherever these operations are used below.
\<close>

definition fadd :: "real option \<Rightarrow> real option \<Rightarrow> real option" where
  "fadd a b = (case (a, b) of (Some x, Some y) \<Rightarrow> Some (x + y) | _ \<Rightarrow> None)"

definition fmul :: "real option \<Rightarrow> real option \<Rightarrow> real option" where
  "fmul a b = (case (a, b) of (Some x, Some y) \<Rightarrow> Some (x * y) | _ \<Rightarrow> None)"

definition fsub :: "real option \<Rightarrow> real option \<Rightarrow> real option" where
  "fsub a b = (case (a, b) of (Some x, Some y) \<Rightarrow> Some (x - y) | _ \<Rightarrow> None)"

definition fdiv :: "real option \<Rightarrow> real option \<Rightarrow> real option" where
  "fdiv a b = (case (a, b) of (Some x, Some y) \<Rightarrow> if y = 0 then None else Some (x / y) | _ \<Rightarrow> None)"

definition mean :: "real list \<Rightarrow> real" where
  "mean xs = sum_list xs / real (length xs)"

text \<open>\<open>std()\<close> of pandas is the sample standard deviation (\<open>ddof=1\<close>).\<close>

definition sample_std :: "real list \<Rightarrow> real" where
  "sample_std xs = sqrt (sum_list (map (\<lambda>x. (x - mean xs)\<^sup>2) xs) / (real (length xs) - 1))"

text \<open>
  \<open>series.rolling(window=w)\<close>: the window at position \<open>i\<close> holds the positions
  \<open>i-w+1 .. i\<close>. With \<open>min_periods\<close> defaulting to \<open>w\<close> the result is NaN until
  \<open>w\<close> observations are there and whenever the window holds a NaN; \<open>need\<close> is the
  number of observations the statistic itself needs (1 for the mean, 2 for the
  sample standard deviation).
\<close>

definition window_values :: "nat \<Rightarrow> nat \<Rightarrow> real option list \<Rightarrow> real option list" where
  "window_values w i xs = take w (drop (i + 1 - w) xs)"

definition rolling :: "nat \<Rightarrow> nat \<Rightarrow> (real list \<Rightarrow> real) \<Rightarrow> real option list \<Rightarrow> real option list" where
  "rolling w need f xs =
     map (\<lambda>i. if i + 1 < w then None
              else case those (window_values w i xs) of
                     None \<Rightarrow> None
                   | Some ys \<Rightarrow> if length ys < need then None else Some (f ys))
         [0 ..< length xs]"

subsection \<open>backend/analytics.py: AnalyticsEngine.compute_zscore\<close>

text \<open>A negative window passes the length guard and is rejected by \<open>rolling\<close> (ValueError).\<close>

definition compute_zscore :: "series \<Rightarrow> int \<Rightarrow> error + series" where
  "compute_zscore s window =
     (if int (length s) < window then Inr []
      else if window < 0 then Inl ValueError
      else
        (let xs = map snd s;
             rolling_mean = rolling (nat window) 1 mean xs;
             rolling_std = rolling (nat window) 2 sample_std xs;
             zscore = map2 fdiv (map2 fsub xs rolling_mean) rolling_std
         in Inr (zip (map fst s) zscore)))"

subsection \<open>backend/analytics.py: AnalyticsEngine.compute_kalman_hedge_ratio\<close>

text \<open>
  The body of \<open>for i in range(1, n)\<close>, run over the aligned rows from the second on; a
  row is (label, p1, p2). The result lists the values stored into \<open>betas[1..n-1]\<close>.
  The division \<open>P_pred * x / S\<close> is a division of numpy floats: with \<open>S = 0\<close> it gives
  NaN or an infinity and no exception, and from then on no beta, covariance or spread is a
  finite number.
\<close>

fun kalman_loop ::
  "real \<Rightarrow> real \<Rightarrow> real option \<Rightarrow> real option \<Rightarrow> (int \<times> real \<times> real) list \<Rightarrow> real option list" where
  "kalman_loop process_variance measurement_variance beta P [] = []"
| "kalman_loop process_variance measurement_variance beta P ((l, y, x) # rows) =
     (let P_pred = fadd P (Some process_variance);
          residual = fsub (Some y) (fmul beta (Some x));
          S = fadd (fmul (fmul (Some x) P_pred) (Some x)) (Some measurement_variance);
          K = fdiv (fmul P_pred (Some x)) S;
          beta' = fadd beta (fmul K residual);
          P' = fmul (fsub (Some 1) (fmul K (Some x))) P_pred
      in beta' # kalman_loop process_variance measurement_variance beta' P' rows)"

text \<open>
  The covariance \<open>P\<close> is a local variable of the loop and is not returned. \<open>kalman_P\<close>
  lists the values it takes after each row, by the same assignments as \<open>kalman_loop\<close>;
  it is used only to state properties of the loop.
\<close>

fun kalman_P ::
  "real \<Rightarrow> real \<Rightarrow> real option \<Rightarrow> real option \<Rightarrow> (int \<times> real \<times> real) list \<Rightarrow> real option list" where
  "kalman_P process_variance measurement_variance beta P [] = []"
| "kalman_P process_variance measurement_variance beta P ((l, y, x) # rows) =
     (let P_pred = fadd P (Some process_variance);
          residual = fsub (Some y) (fmul beta (Some x));
          S = fadd (fmul (fmul (Some x) P_pred) (Some x)) (Some measurement_variance);
          K = fdiv (fmul P_pred (Some x)) S;
          beta' = fadd beta (fmul K residual);
          P' = fmul (fsub (Some 1) (fmul K (Some x))) P_pred
      in P' # kalman_P process_variance measurement_variance beta' P' rows)"

definition compute_kalman_hedge_ratio ::
  "series \<Rightarrow> series \<Rightarrow> real \<Rightarrow> real \<Rightarrow> real \<Rightarrow> error + (series \<times> series)" where
  "compute_kalman_hedge_ratio prices1 prices2 initial_beta process_variance measurement_variance =
     (if length prices1 < 2 \<or> length prices2 < 2 then Inr ([], [])
      else case data_frame prices1 prices2 of
        Inl e \<Rightarrow> Inl e
      | Inr fr \<Rightarrow>
          (let aligned = dropna fr
           in if length aligned < 2 then Inr ([], [])
              else
                (let betas = Some initial_beta #
                       kalman_loop process_variance measurement_variance
                         (Some initial_beta) (Some 1) (tl aligned);
                     hedge_ratios = zip (map fst aligned) betas;
                     spreads = map2 (\<lambda>(l, y, x) b. (l, fsub (Some y) (fmul b (Some x)))) aligned betas
                 in Inr (hedge_ratios, spreads))))"

text \<open>The call with the keyword defaults of the signature.\<close>

definition compute_kalman_hedge_ratio_default :: "series \<Rightarrow> series \<Rightarrow> error + (series \<times> series)" where
  "compute_kalman_hedge_ratio_default prices1 prices2 =
     compute_kalman_hedge_ratio prices1 prices2 1 (1 / 100) (1 / 10)"

text \<open>Two price series on the same index, the first with a missing last value.\<close>

definition prices_a :: series where "prices_a = [(0, Some 1), (1, Some 2), (2, None)]"
definition prices_b :: series where "prices_b = [(0, Some 1), (1, Some 1), (2, Some 3)]"
definition frame_ab :: frame2 where
  "frame_ab = [(0, Some 1, Some 1), (1, Some 2, Some 1), (2, None, Some 3)]"

text \<open>Two series that differ only at the first position.\<close>

definition series_a :: series where "series_a = [(10, Some 1), (11, Some 3), (12, Some 5)]"
definition series_b :: series where "series_b = [(10, Some 7), (11, Some 3), (12, Some 5)]"

subsection \<open>Python values\<close>

text \<open>
  The values that result dictionaries, alert contexts and alert conditions hold. A float is
  a real or NaN; \<open>PClass\<close> is a class object and \<open>PMethod v name\<close> the method \<open>name\<close> bound
  to the object \<open>v\<close>.
\<close>

datatype pyval =
    PNone
  | PBool bool
  | PInt int
  | PFloat "real option"
  | PStr string
  | PList "pyval list"
  | PTuple "pyval list"
  | PDict "(string \<times> pyval) list"
  | PClass string
  | PMethod pyval string

type_synonym pydict = "(string \<times> pyval) list"

subsection \<open>backend/analytics.py: price statistics, regressions, stationarity test\<close>

text \<open>Series reductions of pandas skip NaN and give NaN when too few observations remain.\<close>

definition observations :: "real option list \<Rightarrow> real list" where
  "observations vs = List.map_filter (\<lambda>v. v) vs"
















subsection \<open>The interpreter's \<open>eval\<close> on a fragment of Python expressions\<close>

text \<open>
  \<open>AlertRule.evaluate\<close> calls \<open>eval(self.condition, {"__builtins__": {}}, context)\<close>.
  The syntax trees of the fragment modelled here: names, constants, tuples, attribute access,
  calls, one comparison, \<open>and\<close>/\<open>or\<close>/\<open>not\<close>, the four arithmetic operators, and the
  assignment expression \<open>(name := e)\<close>.
\<close>

datatype cmpop = CmpLt | CmpGt | CmpLtE | CmpGtE | CmpEq | CmpNotEq

datatype binop = OpAdd | OpSub | OpMult | OpDiv

datatype expr =
    Name string
  | Constant pyval
  | TupleExpr "expr list"
  | Attribute expr string
  | Call expr "expr list"
  | Compare expr cmpop expr
  | BoolAnd expr expr
  | BoolOr expr expr
  | UnaryNot expr
  | BinOp expr binop expr
  | NamedExpr string expr

text \<open>
  The state of the running program that lies outside the context and is reachable from any
  object: the classes derived directly from \<open>object\<close>, which is what
  \<open>object.__subclasses__()\<close> lists (the built-in types and the classes the program has
  defined or imported so far).
\<close>

record process =
  object_subclasses :: "string list"

text \<open>\<open>bool(v)\<close>.\<close>

fun truthy :: "pyval \<Rightarrow> bool" where
  "truthy PNone = False"
| "truthy (PBool b) = b"
| "truthy (PInt i) = (i \<noteq> 0)"
| "truthy (PFloat None) = True"
| "truthy (PFloat (Some x)) = (x \<noteq> 0)"
| "truthy (PStr s) = (s \<noteq> [])"
| "truthy (PList vs) = (vs \<noteq> [])"
| "truthy (PTuple vs) = (vs \<noteq> [])"
| "truthy (PDict kvs) = (kvs \<noteq> [])"
| "truthy (PClass c) = True"
| "truthy (PMethod v m) = True"

text \<open>A number as a float: \<open>Some None\<close> is NaN, \<open>None\<close> is a value that is no number.\<close>

fun number :: "pyval \<Rightarrow> real option option" where
  "number (PBool b) = Some (Some (if b then 1 else 0))"
| "number (PInt i) = Some (Some (real_of_int i))"
| "number (PFloat x) = Some x"
| "number v = None"

fun is_integral :: "pyval \<Rightarrow> bool" where
  "is_integral (PBool b) = True"
| "is_integral (PInt i) = True"
| "is_integral v = False"

fun cmp_order :: "cmpop \<Rightarrow> ('a::linorder) \<Rightarrow> 'a \<Rightarrow> bool" where
  "cmp_order CmpLt x y = (x < y)"
| "cmp_order CmpGt x y = (y < x)"
| "cmp_order CmpLtE x y = (x \<le> y)"
| "cmp_order CmpGtE x y = (y \<le> x)"
| "cmp_order CmpEq x y = (x = y)"
| "cmp_order CmpNotEq x y = (x \<noteq> y)"

text \<open>
  \<open>a == b\<close>: numbers are equal by value and NaN equals nothing; sequences of one type are
  equal when they are equal item by item; dicts when they have the same keys with equal
  values. Objects have no identity here: a class is its name, and a bound method is the
  method name with the object it is bound to.
\<close>

fun py_eq :: "pyval \<Rightarrow> pyval \<Rightarrow> bool"
  and py_eq_list :: "pyval list \<Rightarrow> pyval list \<Rightarrow> bool"
  and py_eq_items :: "(string \<times> pyval) list \<Rightarrow> (string \<times> pyval) list \<Rightarrow> bool" where
  "py_eq a b =
     (case (number a, number b) of
        (Some x, Some y) \<Rightarrow> (case (x, y) of (Some u, Some v) \<Rightarrow> u = v | _ \<Rightarrow> False)
      | (None, None) \<Rightarrow>
          (case a of
             PNone \<Rightarrow> b = PNone
           | PStr s \<Rightarrow> b = PStr s
           | PList xs \<Rightarrow> (case b of PList ys \<Rightarrow> py_eq_list xs ys | _ \<Rightarrow> False)
           | PTuple xs \<Rightarrow> (case b of PTuple ys \<Rightarrow> py_eq_list xs ys | _ \<Rightarrow> False)
           | PDict kvs \<Rightarrow>
               (case b of PDict kws \<Rightarrow> length kvs = length kws \<and> py_eq_items kvs kws | _ \<Rightarrow> False)
           | PClass c \<Rightarrow> b = PClass c
           | PMethod v m \<Rightarrow> (case b of PMethod w n \<Rightarrow> m = n \<and> py_eq v w | _ \<Rightarrow> False)
           | _ \<Rightarrow> False)
      | _ \<Rightarrow> False)"
| "py_eq_list [] ys = (ys = [])"
| "py_eq_list (x # xs) ys = (case ys of [] \<Rightarrow> False | y # ys' \<Rightarrow> py_eq x y \<and> py_eq_list xs ys')"
| "py_eq_items [] kws = True"
| "py_eq_items ((k, v) # kvs) kws =
     ((case map_of kws k of None \<Rightarrow> False | Some w \<Rightarrow> py_eq v w) \<and> py_eq_items kvs kws)"

text \<open>
  A comparison. Every comparison with NaN is false, except \<open>!=\<close>. \<open>==\<close> and \<open>!=\<close> are
  defined on all values. The order is that of the numbers, the lexicographic order of two
  strings, and for two lists or two tuples the order of the first pair of items that are not
  equal, or of the lengths when there is none; other pairs have no order (TypeError).
\<close>

fun compare_values :: "cmpop \<Rightarrow> pyval \<Rightarrow> pyval \<Rightarrow> error + pyval"
  and compare_seq :: "cmpop \<Rightarrow> pyval list \<Rightarrow> pyval list \<Rightarrow> error + pyval" where
  "compare_values op a b =
     (case (number a, number b) of
        (Some (Some x), Some (Some y)) \<Rightarrow> Inr (PBool (cmp_order op x y))
      | (Some _, Some _) \<Rightarrow> Inr (PBool (op = CmpNotEq))
      | _ \<Rightarrow>
         if op = CmpEq then Inr (PBool (py_eq a b))
         else if op = CmpNotEq then Inr (PBool (\<not> py_eq a b))
         else
           (case a of
              PStr s \<Rightarrow> (case b of PStr t \<Rightarrow> Inr (PBool (cmp_order op s t)) | _ \<Rightarrow> Inl TypeError)
            | PList xs \<Rightarrow> (case b of PList ys \<Rightarrow> compare_seq op xs ys | _ \<Rightarrow> Inl TypeError)
            | PTuple xs \<Rightarrow> (case b of PTuple ys \<Rightarrow> compare_seq op xs ys | _ \<Rightarrow> Inl TypeError)
            | _ \<Rightarrow> Inl TypeError))"
| "compare_seq op [] ys = Inr (PBool (cmp_order op 0 (length ys)))"
| "compare_seq op (x # xs) ys =
     (case ys of
        [] \<Rightarrow> Inr (PBool (cmp_order op (Suc (length xs)) 0))
      | y # ys' \<Rightarrow> if py_eq x y then compare_seq op xs ys' else compare_values op x y)"

text \<open>
  An arithmetic operator: on two numbers; \<open>+\<close> also joins two strings, two lists or two
  tuples, and \<open>*\<close> repeats a string, list or tuple an integral number of times. Other
  operands are a TypeError.
\<close>

definition repeat :: "int \<Rightarrow> 'a list \<Rightarrow> 'a list" where
  "repeat n xs = concat (replicate (nat n) xs)"

definition integral :: "pyval \<Rightarrow> int option" where
  "integral v = (case v of PBool b \<Rightarrow> Some (if b then 1 else 0) | PInt i \<Rightarrow> Some i | _ \<Rightarrow> None)"

definition arith :: "binop \<Rightarrow> pyval \<Rightarrow> pyval \<Rightarrow> error + pyval" where
  "arith op a b =
     (case (number a, number b) of
        (Some x, Some y) \<Rightarrow>
          (case op of
             OpDiv \<Rightarrow> if y = Some 0 then Inl ZeroDivisionError else Inr (PFloat (fdiv x y))
           | OpAdd \<Rightarrow>
               (case (x, y) of
                  (Some u, Some v) \<Rightarrow>
                    if is_integral a \<and> is_integral b then Inr (PInt (\<lfloor>u + v\<rfloor>)) else Inr (PFloat (Some (u + v)))
                | _ \<Rightarrow> Inr (PFloat None))
           | OpSub \<Rightarrow>
               (case (x, y) of
                  (Some u, Some v) \<Rightarrow>
                    if is_integral a \<and> is_integral b then Inr (PInt (\<lfloor>u - v\<rfloor>)) else Inr (PFloat (Some (u - v)))
                | _ \<Rightarrow> Inr (PFloat None))
           | OpMult \<Rightarrow>
               (case (x, y) of
                  (Some u, Some v) \<Rightarrow>
                    if is_integral a \<and> is_integral b then Inr (PInt (\<lfloor>u * v\<rfloor>)) else Inr (PFloat (Some (u * v)))
                | _ \<Rightarrow> Inr (PFloat None)))
      | _ \<Rightarrow>
          (case op of
             OpAdd \<Rightarrow>
               (case (a, b) of
                  (PStr s, PStr t) \<Rightarrow> Inr (PStr (s @ t))
                | (PList xs, PList ys) \<Rightarrow> Inr (PList (xs @ ys))
                | (PTuple xs, PTuple ys) \<Rightarrow> Inr (PTuple (xs @ ys))
                | _ \<Rightarrow> Inl TypeError)
           | OpMult \<Rightarrow>
               (case (a, integral b, integral a, b) of
                  (PStr s, Some n, _, _) \<Rightarrow> Inr (PStr (repeat n s))
                | (PList xs, Some n, _, _) \<Rightarrow> Inr (PList (repeat n xs))
                | (PTuple xs, Some n, _, _) \<Rightarrow> Inr (PTuple (repeat n xs))
                | (_, _, Some n, PStr s) \<Rightarrow> Inr (PStr (repeat n s))
                | (_, _, Some n, PList xs) \<Rightarrow> Inr (PList (repeat n xs))
                | (_, _, Some n, PTuple xs) \<Rightarrow> Inr (PTuple (repeat n xs))
                | _ \<Rightarrow> Inl TypeError)
           | _ \<Rightarrow> Inl TypeError))"

fun type_name :: "pyval \<Rightarrow> string" where
  "type_name PNone = ''NoneType''"
| "type_name (PBool b) = ''bool''"
| "type_name (PInt i) = ''int''"
| "type_name (PFloat x) = ''float''"
| "type_name (PStr s) = ''str''"
| "type_name (PList vs) = ''list''"
| "type_name (PTuple vs) = ''tuple''"
| "type_name (PDict kvs) = ''dict''"
| "type_name (PClass c) = ''type''"
| "type_name (PMethod v m) = ''builtin_function_or_method''"

text \<open>
  \<open>getattr\<close>, for the attributes modelled: every object has \<open>__class__\<close>; a class has
  \<open>__base__\<close> (\<open>bool\<close> derives from \<open>int\<close>, the other classes here from \<open>object\<close>) and
  \<open>object\<close> has \<open>__subclasses__\<close>; a list or tuple has \<open>__len__\<close>. Other attributes are
  outside the fragment and reported as AttributeError.
\<close>

definition get_attr :: "pyval \<Rightarrow> string \<Rightarrow> error + pyval" where
  "get_attr v a =
     (if a = ''__class__'' then Inr (PClass (type_name v))
      else case v of
        PClass c \<Rightarrow>
          if a = ''__base__''
          then Inr (if c = ''object'' then PNone else if c = ''bool'' then PClass ''int'' else PClass ''object'')
          else if a = ''__subclasses__'' \<and> c = ''object'' then Inr (PMethod v a)
          else Inl AttributeError
      | PList vs \<Rightarrow> if a = ''__len__'' then Inr (PMethod v a) else Inl AttributeError
      | PTuple vs \<Rightarrow> if a = ''__len__'' then Inr (PMethod v a) else Inl AttributeError
      | _ \<Rightarrow> Inl AttributeError)"

definition call :: "process \<Rightarrow> pyval \<Rightarrow> pyval list \<Rightarrow> error + pyval" where
  "call st f args =
     (case f of
        PMethod (PClass c) m \<Rightarrow>
          if m = ''__subclasses__'' \<and> c = ''object'' \<and> args = []
          then Inr (PList (map PClass (object_subclasses st)))
          else Inl TypeError
      | PMethod (PList vs) m \<Rightarrow>
          if m = ''__len__'' \<and> args = [] then Inr (PInt (int (length vs))) else Inl TypeError
      | PMethod (PTuple vs) m \<Rightarrow>
          if m = ''__len__'' \<and> args = [] then Inr (PInt (int (length vs))) else Inl TypeError
      | _ \<Rightarrow> Inl TypeError)"

text \<open>
  Evaluation returns the value or the exception, and the context as the evaluation leaves
  it: the context is the \<open>locals\<close> of \<open>eval\<close>, and an assignment expression stores its
  value there under its name. A name is looked up in the locals (the context), then in the
  globals \<open>{"__builtins__": {}}\<close>, then in the builtins, which are empty. Operands and
  arguments are evaluated from left to right.
\<close>

fun eval_expr :: "process \<Rightarrow> expr \<Rightarrow> pydict \<Rightarrow> (error + pyval) \<times> pydict"
  and eval_exprs :: "process \<Rightarrow> expr list \<Rightarrow> pydict \<Rightarrow> (error + pyval list) \<times> pydict" where
  "eval_expr st (Name n) ctx =
     (case map_of ctx n of
        Some v \<Rightarrow> (Inr v, ctx)
      | None \<Rightarrow> if n = ''__builtins__'' then (Inr (PDict []), ctx) else (Inl NameError, ctx))"
| "eval_expr st (Constant v) ctx = (Inr v, ctx)"
| "eval_expr st (TupleExpr es) ctx =
     (case eval_exprs st es ctx of
        (Inl err, ctx') \<Rightarrow> (Inl err, ctx')
      | (Inr vs, ctx') \<Rightarrow> (Inr (PTuple vs), ctx'))"
| "eval_expr st (Attribute e a) ctx =
     (case eval_expr st e ctx of
        (Inl err, ctx') \<Rightarrow> (Inl err, ctx')
      | (Inr v, ctx') \<Rightarrow> (get_attr v a, ctx'))"
| "eval_expr st (Call f es) ctx =
     (case eval_expr st f ctx of
        (Inl err, ctx') \<Rightarrow> (Inl err, ctx')
      | (Inr fv, ctx') \<Rightarrow>
          (case eval_exprs st es ctx' of
             (Inl err, ctx'') \<Rightarrow> (Inl err, ctx'')
           | (Inr vs, ctx'') \<Rightarrow> (call st fv vs, ctx'')))"
| "eval_expr st (Compare l op r) ctx =
     (case eval_expr st l ctx of
        (Inl err, ctx') \<Rightarrow> (Inl err, ctx')
      | (Inr a, ctx') \<Rightarrow>
          (case eval_expr st r ctx' of
             (Inl err, ctx'') \<Rightarrow> (Inl err, ctx'')
           | (Inr b, ctx'') \<Rightarrow> (compare_values op a b, ctx'')))"
| "eval_expr st (BoolAnd l r) ctx =
     (case eval_expr st l ctx of
        (Inl err, ctx') \<Rightarrow> (Inl err, ctx')
      | (Inr a, ctx') \<Rightarrow> if truthy a then eval_expr st r ctx' else (Inr a, ctx'))"
| "eval_expr st (BoolOr l r) ctx =
     (case eval_expr st l ctx of
        (Inl err, ctx') \<Rightarrow> (Inl err, ctx')
      | (Inr a, ctx') \<Rightarrow> if truthy a then (Inr a, ctx') else eval_expr st r ctx')"
| "eval_expr st (UnaryNot e) ctx =
     (case eval_expr st e ctx of
        (Inl err, ctx') \<Rightarrow> (Inl err, ctx')
      | (Inr a, ctx') \<Rightarrow> (Inr (PBool (\<not> truthy a)), ctx'))"
| "eval_expr st (BinOp l op r) ctx =
     (case eval_expr st l ctx of
        (Inl err, ctx') \<Rightarrow> (Inl err, ctx')
      | (Inr a, ctx') \<Rightarrow>
          (case eval_expr st r ctx' of
             (Inl err, ctx'') \<Rightarrow> (Inl err, ctx'')
           | (Inr b, ctx'') \<Rightarrow> (arith op a b, ctx'')))"
| "eval_expr st (NamedExpr n e) ctx =
     (case eval_expr st e ctx of
        (Inl err, ctx') \<Rightarrow> (Inl err, ctx')
      | (Inr v, ctx') \<Rightarrow> (Inr v, AList.update n v ctx'))"
| "eval_exprs st [] ctx = (Inr [], ctx)"
| "eval_exprs st (e # es) ctx =
     (case eval_expr st e ctx of
        (Inl err, ctx') \<Rightarrow> (Inl err, ctx')
      | (Inr v, ctx') \<Rightarrow>
          (case eval_exprs st es ctx' of
             (Inl err, ctx'') \<Rightarrow> (Inl err, ctx'')
           | (Inr vs, ctx'') \<Rightarrow> (Inr (v # vs), ctx'')))"

text \<open>
  \<open>eval\<close> of a string: Python's parser is the parameter \<open>parse\<close>; a string it rejects
  raises SyntaxError before anything is evaluated.
\<close>

definition python_eval ::
  "(string \<Rightarrow> expr option) \<Rightarrow> process \<Rightarrow> string \<Rightarrow> pydict \<Rightarrow> (error + pyval) \<times> pydict" where
  "python_eval parse st source ctx =
     (case parse source of None \<Rightarrow> (Inl SyntaxError, ctx) | Some e \<Rightarrow> eval_expr st e ctx)"

subsection \<open>backend/alerts.py: AlertRule\<close>

text \<open>
  \<open>datetime.now()\<close> is a parameter \<open>now\<close>. The context is a dict from names to values.
\<close>

record alert_rule =
  rule_id :: string
  rule_name :: string
  condition :: string
  rule_symbol :: "string option"
  enabled :: bool
  last_triggered :: "int option"
  trigger_count :: nat

text \<open>\<open>AlertRule(rule_id, name, condition, symbol=None, enabled=True)\<close>.\<close>

definition AlertRule :: "string \<Rightarrow> string \<Rightarrow> string \<Rightarrow> string option \<Rightarrow> bool \<Rightarrow> alert_rule" where
  "AlertRule rid nm cond sy en =
     \<lparr>rule_id = rid, rule_name = nm, condition = cond, rule_symbol = sy, enabled = en,
      last_triggered = None, trigger_count = 0\<rparr>"

text \<open>
  The truth value of \<open>self.symbol\<close> in \<open>if self.symbol and ...\<close>: \<open>None\<close> and the empty
  string are false.
\<close>

definition symbol_set :: "string option \<Rightarrow> bool" where
  "symbol_set sy = (case sy of None \<Rightarrow> False | Some s \<Rightarrow> s \<noteq> [])"

text \<open>
  \<open>py_eval\<close> is \<open>eval(condition, {"__builtins__": {}}, context)\<close>: it gives the value or
  the exception, and the context as the evaluation leaves it, since the context is a dict
  that the caller passes by reference and \<open>eval\<close> may store into. An exception of \<open>eval\<close>,
  or of \<open>bool(result)\<close>, is caught and gives False. \<open>evaluate\<close> returns its result and the
  context after the call; the two guards return before \<open>eval\<close> is reached.
\<close>

definition evaluate ::
  "(string \<Rightarrow> pydict \<Rightarrow> (error + pyval) \<times> pydict) \<Rightarrow> alert_rule \<Rightarrow> pydict \<Rightarrow> bool \<times> pydict" where
  "evaluate py_eval rule context =
     (if \<not> enabled rule then (False, context)
      else if symbol_set (rule_symbol rule)
              \<and> map_of context ''symbol'' \<noteq> map_option PStr (rule_symbol rule) then (False, context)
      else case py_eval (condition rule) context of
             (Inl e, context') \<Rightarrow> (False, context')
           | (Inr result, context') \<Rightarrow> (truthy result, context'))"


subsection \<open>backend/alerts.py: AlertManager\<close>

record alert_info =
  info_rule_id :: string
  info_name :: string
  info_symbol :: pyval
  info_timestamp :: int
  info_context :: pydict

text \<open>
  \<open>rules\<close> is the dict from rule id to rule, in insertion order. The callback is external:
  \<open>has_callback\<close> says whether one is registered, and \<open>callback_calls\<close> records the
  arguments of its invocations. The one callback of the repository, \<open>alert_callback\<close> of
  \<open>app.py\<close>, writes a log record and changes neither the rule nor the context.
\<close>

record alert_manager =
  rules :: "(string \<times> alert_rule) list"
  has_callback :: bool
  active_alerts :: "alert_info list"
  callback_calls :: "(alert_rule \<times> pydict) list"

definition AlertManager :: "bool \<Rightarrow> alert_manager" where
  "AlertManager cb = \<lparr>rules = [], has_callback = cb, active_alerts = [], callback_calls = []\<rparr>"

definition add_rule :: "alert_rule \<Rightarrow> alert_manager \<Rightarrow> alert_manager" where
  "add_rule rule mgr = mgr\<lparr>rules := AList.update (rule_id rule) rule (rules mgr)\<rparr>"

definition remove_rule :: "string \<Rightarrow> alert_manager \<Rightarrow> alert_manager" where
  "remove_rule rid mgr = mgr\<lparr>rules := AList.delete rid (rules mgr)\<rparr>"








text \<open>
  The calls \<open>rule.evaluate(context)\<close> that the loop makes, one for each item in order: the
  context the call gets, its result, and the context it leaves.
\<close>

fun evaluations ::
  "(string \<Rightarrow> pydict \<Rightarrow> (error + pyval) \<times> pydict) \<Rightarrow> (string \<times> alert_rule) list \<Rightarrow> pydict \<Rightarrow>
   (pydict \<times> bool \<times> pydict) list" where
  "evaluations py_eval [] context = []"
| "evaluations py_eval ((k, rule) # rest) context =
     (case evaluate py_eval rule context of
        (b, context') \<Rightarrow> (context, b, context') # evaluations py_eval rest context')"

subsection \<open>Concrete alert inputs\<close>

text \<open>
  The syntax trees Python's parser gives for the condition strings used below: the two
  default rules of \<open>app.py\<close>, an expression that walks from a tuple literal to the
  subclasses of \<open>object\<close>, and a comparison that first rebinds \<open>symbol\<close> to the value of
  the context's field \<open>peer\<close>.
\<close>

definition parse_known :: "string \<Rightarrow> expr option" where
  "parse_known source =
     (if source = ''zscore > 2'' then Some (Compare (Name ''zscore'') CmpGt (Constant (PInt 2)))
      else if source = ''zscore < -2'' then Some (Compare (Name ''zscore'') CmpLt (Constant (PInt (- 2))))
      else if source = ''().__class__.__base__.__subclasses__().__len__() > 2''
      then Some (Compare
                   (Call (Attribute
                      (Call (Attribute (Attribute (Attribute (TupleExpr []) ''__class__'') ''__base__'')
                               ''__subclasses__'') [])
                      ''__len__'') [])
                   CmpGt (Constant (PInt 2)))
      else if source = ''(symbol := peer) == peer''
      then Some (Compare (NamedExpr ''symbol'' (Name ''peer'')) CmpEq (Name ''peer''))
      else None)"

definition process_a :: process where
  "process_a = \<lparr>object_subclasses = [''AlertRule'', ''AlertManager'']\<rparr>"

definition process_b :: process where
  "process_b = \<lparr>object_subclasses = [''AlertRule'', ''AlertManager'', ''DataProcessor'']\<rparr>"

definition context_btc :: pydict where
  "context_btc = [(''symbol'', PStr ''btcusdt''), (''price'', PFloat (Some 50000)), (''zscore'', PFloat (Some 3))]"


definition rule_eth :: alert_rule where
  "rule_eth = AlertRule ''r_eth'' ''High Z-Score'' ''zscore > 2'' (Some ''ethusdt'') True"


definition rule_empty_symbol :: alert_rule where
  "rule_empty_symbol = AlertRule ''r_empty'' ''High Z-Score'' ''zscore > 2'' (Some []) True"

text \<open>A context with a second string field, and a rule whose condition rebinds \<open>symbol\<close>.\<close>

definition context_pair :: pydict where
  "context_pair = [(''symbol'', PStr ''btcusdt''), (''peer'', PStr ''ethusdt''), (''zscore'', PFloat (Some 3))]"

definition rule_rebind :: alert_rule where
  "rule_rebind = AlertRule ''r_set'' ''Rebind'' ''(symbol := peer) == peer'' None True"

definition manager_b :: alert_manager where
  "manager_b = add_rule rule_eth (add_rule rule_rebind (AlertManager True))"


definition rule_probe :: alert_rule where
  "rule_probe = AlertRule ''r_probe'' ''Probe''
     ''().__class__.__base__.__subclasses__().__len__() > 2'' None True"

subsection \<open>backend/storage.py: DataStorage\<close>

text \<open>
  The database: the \<open>ticks\<close> table and one bars table per timeframe, each as the list of
  its rows in insertion order (the order of the autoincrement \<open>id\<close>). The columns \<open>id\<close> and
  \<open>created_at\<close> are never read back and are left out.
\<close>

record data_storage =
  ticks_table :: "tick list"
  bars_tables :: "(string \<times> bar list) list"

definition DataStorage :: data_storage where
  "DataStorage = \<lparr>ticks_table = [], bars_tables = map (\<lambda>(tf, secs). (tf, [])) TIMEFRAMES\<rparr>"

text \<open>
  An integer that is bound to a \<open>?\<close> of a statement must fit SQLite's 64-bit signed
  INTEGER: for any other Python int the \<open>sqlite3\<close> module raises OverflowError when the
  statement is executed, and the call of the method does not return: nothing in the method
  catches the failure (for the reads it passes through \<open>read_sql_query\<close>, which may wrap
  it in an exception of its own).
\<close>

definition sqlite_integer :: "int \<Rightarrow> bool" where
  "sqlite_integer n = (- (2 ^ 63) \<le> n \<and> n < 2 ^ 63)"

definition insert_tick ::
  "int \<Rightarrow> string \<Rightarrow> real \<Rightarrow> real \<Rightarrow> data_storage \<Rightarrow> error + data_storage" where
  "insert_tick ts sy p sz db =
     (if sqlite_integer ts
      then Inr (db\<lparr>ticks_table :=
             ticks_table db @ [\<lparr>timestamp = ts, symbol = sy, price = p, tick_size = sz\<rparr>]\<rparr>)
      else Inl OverflowError)"

text \<open>\<open>INSERT OR REPLACE\<close> under \<open>UNIQUE(symbol, timestamp)\<close>: the row in conflict is
  deleted and the new row is added.\<close>

definition insert_or_replace :: "bar \<Rightarrow> bar list \<Rightarrow> bar list" where
  "insert_or_replace b table =
     filter (\<lambda>r. (bar_symbol r, bar_timestamp r) \<noteq> (bar_symbol b, bar_timestamp b)) table @ [b]"

text \<open>
  The rows are inserted one by one and committed after the last one: when a row cannot be
  bound the exception leaves the method before the commit, and the table is as before.
\<close>

definition insert_bars :: "string \<Rightarrow> bar list \<Rightarrow> data_storage \<Rightarrow> error + data_storage" where
  "insert_bars timeframe bs db =
     (case map_of (bars_tables db) timeframe of
        None \<Rightarrow> Inl ValueError
      | Some table \<Rightarrow>
          if list_all (\<lambda>b. sqlite_integer (bar_timestamp b) \<and> sqlite_integer (int (trade_count b))) bs
          then Inr (db\<lparr>bars_tables :=
                 AList.update timeframe (fold insert_or_replace bs table) (bars_tables db)\<rparr>)
          else Inl OverflowError)"

text \<open>
  The truth value of an optional integer argument in \<open>if start_time:\<close>, \<open>if end_time:\<close>
  and \<open>if limit:\<close>: \<open>None\<close> and 0 are false.
\<close>

definition int_set :: "int option \<Rightarrow> bool" where
  "int_set a = (case a of None \<Rightarrow> False | Some n \<Rightarrow> n \<noteq> 0)"

text \<open>The \<open>WHERE\<close> clause that the optional arguments build.\<close>

definition sql_where ::
  "('r \<Rightarrow> string) \<Rightarrow> ('r \<Rightarrow> int) \<Rightarrow> string \<Rightarrow> int option \<Rightarrow> int option \<Rightarrow> 'r list \<Rightarrow> 'r list" where
  "sql_where sy ts s start_time end_time table =
     filter (\<lambda>r. sy r = s
               \<and> (if int_set start_time then the start_time \<le> ts r else True)
               \<and> (if int_set end_time then ts r \<le> the end_time else True)) table"

text \<open>
  \<open>ORDER BY timestamp DESC\<close>: rows with equal timestamps come in descending row order, as
  a backward scan of the (symbol, timestamp) index gives them.
\<close>

definition order_by_desc :: "('r \<Rightarrow> int) \<Rightarrow> 'r list \<Rightarrow> 'r list" where
  "order_by_desc ts rows = rev (sort_key ts rows)"

text \<open>
  \<open>LIMIT ?\<close> is added only for a true \<open>limit\<close>; SQLite takes a negative limit as no
  limit. The limit here has been bound: it is a 64-bit integer.
\<close>

definition sql_limit :: "int option \<Rightarrow> 'r list \<Rightarrow> 'r list" where
  "sql_limit limit rows =
     (if int_set limit then (if the limit < 0 then rows else take (nat (the limit)) rows) else rows)"

text \<open>\<open>df.sort_values('timestamp')\<close>, applied when the frame is not empty.\<close>

definition sort_values :: "('r \<Rightarrow> int) \<Rightarrow> 'r list \<Rightarrow> 'r list" where
  "sort_values ts rows = (if rows = [] then rows else sort_key ts rows)"

text \<open>
  The parameters of the query: \<open>start_time\<close>, \<open>end_time\<close> and \<open>limit\<close> are appended to
  \<open>params\<close> when they are true, and each appended one is bound as an INTEGER.
\<close>

definition params_bound :: "int option \<Rightarrow> int option \<Rightarrow> int option \<Rightarrow> bool" where
  "params_bound start_time end_time limit =
     list_all (\<lambda>a. \<not> int_set a \<or> sqlite_integer (the a)) [start_time, end_time, limit]"

definition get_ticks ::
  "data_storage \<Rightarrow> string \<Rightarrow> int option \<Rightarrow> int option \<Rightarrow> int option \<Rightarrow> error + tick list" where
  "get_ticks db s start_time end_time limit =
     (if params_bound start_time end_time limit
      then Inr (sort_values timestamp
        (sql_limit limit
          (order_by_desc timestamp
            (sql_where symbol timestamp s start_time end_time (ticks_table db)))))
      else Inl OverflowError)"

definition get_bars ::
  "data_storage \<Rightarrow> string \<Rightarrow> string \<Rightarrow> int option \<Rightarrow> int option \<Rightarrow> int option \<Rightarrow> error + bar list" where
  "get_bars db s timeframe start_time end_time limit =
     (case map_of TIMEFRAMES timeframe of
        None \<Rightarrow> Inl ValueError
      | Some secs \<Rightarrow>
          if params_bound start_time end_time limit
          then Inr (sort_values bar_timestamp
            (sql_limit limit
              (order_by_desc bar_timestamp
                (sql_where bar_symbol bar_timestamp s start_time end_time
                   (case map_of (bars_tables db) timeframe of None \<Rightarrow> [] | Some table \<Rightarrow> table)))))
          else Inl OverflowError)"

text \<open>
  A database with three ticks and three one-minute bars of \<open>x\<close>, inserted out of time
  order, and one tick of \<open>y\<close>.
\<close>

definition tick_at :: "int \<Rightarrow> string \<Rightarrow> tick" where
  "tick_at ts s = \<lparr>timestamp = ts, symbol = s, price = 100, tick_size = 1\<rparr>"

definition bar_at :: "int \<Rightarrow> string \<Rightarrow> bar" where
  "bar_at ts s = \<lparr>bar_timestamp = ts, bar_symbol = s, bar_open = 100, bar_high = 105,
                  bar_low = 100, bar_close = 105, bar_volume = 3, trade_count = 2\<rparr>"

definition storage_a :: data_storage where
  "storage_a =
     \<lparr>ticks_table = [tick_at 3000 ''x'', tick_at 1000 ''x'', tick_at 1500 ''y'', tick_at 2000 ''x''],
      bars_tables = [(''1s'', []),
                     (''1m'', [bar_at 120000 ''x'', bar_at 0 ''x'', bar_at 60000 ''x'']),
                     (''5m'', [])]\<rparr>"

subsection \<open>websocket client (binance client) and backend/data processor: lifecycle\<close>

text \<open>
  What a call does besides changing the object: log records and thread starts, in order.
  A thread is named by its target.
\<close>

datatype log_level = INFO | WARNING | ERROR

datatype worker = ConnectWorker | ResampleWorker string int | AlertCheckWorker

datatype event = Log log_level string | ThreadStart worker | SocketClose

text \<open>
  \<open>BinanceWebSocketClient\<close>: \<open>ws_connected\<close> says whether \<open>self.ws\<close> is set, which the
  connect thread does at some time after \<open>start\<close>.
\<close>

record ws_client =
  ws_symbols :: "string list"
  ws_running :: bool
  ws_connected :: bool

text \<open>
  \<open>s.lower()\<close>, for a string of characters with code points below 256: the capital
  letters of ASCII and of Latin-1 have their small letter 32 code points higher.
\<close>

definition lower_char :: "char \<Rightarrow> char" where
  "lower_char c =
     (let n = (of_char c :: nat)
      in if (65 \<le> n \<and> n \<le> 90) \<or> (192 \<le> n \<and> n \<le> 222 \<and> n \<noteq> 215) then char_of (n + 32) else c)"

definition lower :: "string \<Rightarrow> string" where
  "lower s = map lower_char s"

definition BinanceWebSocketClient :: "string list \<Rightarrow> ws_client" where
  "BinanceWebSocketClient symbols =
     \<lparr>ws_symbols = map lower symbols, ws_running = False, ws_connected = False\<rparr>"

definition ws_start :: "ws_client \<Rightarrow> ws_client \<times> event list" where
  "ws_start ws =
     (if ws_running ws then (ws, [Log WARNING ''WebSocket client already running''])
      else (ws\<lparr>ws_running := True\<rparr>,
            [ThreadStart ConnectWorker, Log INFO ''WebSocket client started'']))"

definition ws_stop :: "ws_client \<Rightarrow> ws_client \<times> event list" where
  "ws_stop ws =
     (ws\<lparr>ws_running := False\<rparr>,
      (if ws_connected ws then [SocketClose] else []) @ [Log INFO ''WebSocket client stopped''])"

text \<open>
  \<open>DataProcessor\<close>: the tick buffers, the client, the dict of resampling threads and the
  running flag; \<open>has_alert_manager\<close> says whether an alert manager was given.
\<close>

record data_processor =
  dp_symbols :: "string list"
  has_alert_manager :: bool
  tick_buffers :: "(string \<times> tick list) list"
  dp_ws_client :: "ws_client option"
  resampling_threads :: "(string \<times> worker) list"
  running :: bool

definition DataProcessor :: "string list \<Rightarrow> bool \<Rightarrow> data_processor" where
  "DataProcessor symbols am =
     \<lparr>dp_symbols = symbols, has_alert_manager = am,
      tick_buffers = map (\<lambda>s. (s, [])) symbols, dp_ws_client = None,
      resampling_threads = [], running = False\<rparr>"

definition start :: "data_processor \<Rightarrow> data_processor \<times> event list" where
  "start dp =
     (if running dp then (dp, [Log WARNING ''Data processor already running''])
      else
        (let (ws, ws_events) = ws_start (BinanceWebSocketClient (dp_symbols dp));
             threads = map (\<lambda>(timeframe, interval). (timeframe, ResampleWorker timeframe interval))
                         TIMEFRAMES
         in (dp\<lparr>running := True, dp_ws_client := Some ws,
                  resampling_threads :=
                    fold (\<lambda>(timeframe, thread). AList.update timeframe thread) threads
                      (resampling_threads dp)\<rparr>,
             ws_events @ map (\<lambda>(timeframe, thread). ThreadStart thread) threads
               @ (if has_alert_manager dp then [ThreadStart AlertCheckWorker] else [])
               @ [Log INFO ''Data processor started''])))"

definition stop :: "data_processor \<Rightarrow> data_processor \<times> event list" where
  "stop dp =
     (case dp_ws_client dp of
        None \<Rightarrow> (dp\<lparr>running := False\<rparr>, [Log INFO ''Data processor stopped''])
      | Some ws \<Rightarrow>
          (let (ws', ws_events) = ws_stop ws
           in (dp\<lparr>running := False, dp_ws_client := Some ws'\<rparr>,
               ws_events @ [Log INFO ''Data processor stopped''])))"

text \<open>Whether an event is a warning, and whether it starts a thread.\<close>

fun is_warning :: "event \<Rightarrow> bool" where
  "is_warning (Log WARNING msg) = True"
| "is_warning e = False"

fun is_thread_start :: "event \<Rightarrow> bool" where
  "is_thread_start (ThreadStart w) = True"
| "is_thread_start e = False"

definition processor_a :: data_processor where
  "processor_a = DataProcessor [''btcusdt'', ''ethusdt''] True"

subsection \<open>backend/backtest.py: MeanReversionBacktest\<close>

text \<open>Float comparison: a comparison with NaN is false.\<close>

definition flt :: "real option \<Rightarrow> real option \<Rightarrow> bool" where
  "flt a b = (case (a, b) of (Some x, Some y) \<Rightarrow> x < y | _ \<Rightarrow> False)"

definition fle :: "real option \<Rightarrow> real option \<Rightarrow> bool" where
  "fle a b = (case (a, b) of (Some x, Some y) \<Rightarrow> x \<le> y | _ \<Rightarrow> False)"

datatype trade_type = LONG | SHORT

text \<open>
  A trade dict: the entry keys, and the keys \<open>exit_time\<close>, \<open>exit_price\<close>,
  \<open>exit_zscore\<close>, \<open>pnl\<close> that \<open>update\<close> adds at the exit (\<open>None\<close> before).
\<close>

record trade =
  trade_kind :: trade_type
  entry_time :: int
  entry_price :: "real option"
  entry_zscore :: "real option"
  trade_exit :: "(int \<times> real option \<times> real option \<times> real option) option"

definition trade_pnl :: "trade \<Rightarrow> real option" where
  "trade_pnl t = (case trade_exit t of None \<Rightarrow> None | Some (tm, p, z, pnl) \<Rightarrow> pnl)"

text \<open>The local variables of \<open>run\<close> that the loop changes.\<close>

record backtest_state =
  position :: int
  trades :: "trade list"
  equity_curve :: "real option list"
  current_equity :: "real option"

definition initial_state :: backtest_state where
  "initial_state = \<lparr>position = 0, trades = [], equity_curve = [], current_equity = Some 100000\<rparr>"

text \<open>
  The profit of closing the open trade \<open>trades[-1]\<close> at \<open>exit_price\<close>, for 100 units;
  \<open>trades[-1]\<close> on an empty list raises IndexError.
\<close>

definition close_pnl :: "backtest_state \<Rightarrow> real option \<Rightarrow> error + real option" where
  "close_pnl st exit_price =
     (if trades st = [] then Inl IndexError
      else if position st = 1
      then Inr (fmul (fsub exit_price (entry_price (last (trades st)))) (Some 100))
      else Inr (fmul (fsub (entry_price (last (trades st))) exit_price) (Some 100)))"

definition update_last_trade ::
  "int \<Rightarrow> real option \<Rightarrow> real option \<Rightarrow> real option \<Rightarrow> trade list \<Rightarrow> trade list" where
  "update_last_trade tm p z pnl ts = butlast ts @ [(last ts)\<lparr>trade_exit := Some (tm, p, z, pnl)\<rparr>]"

text \<open>
  One pass of the body of \<open>for i in range(window, len(spread))\<close>, for the row
  \<open>(zscore.iloc[i], spread.index[i], spread.iloc[i])\<close>. The variable \<open>prev_z\<close> is assigned
  and never read.
\<close>

definition loop_body :: "real \<Rightarrow> real \<Rightarrow> real option \<times> int \<times> real option \<Rightarrow> backtest_state \<Rightarrow> error + backtest_state" where
  "loop_body entry_threshold exit_threshold row st =
     (case row of (z, tm, p) \<Rightarrow>
       (case
          (if position st = 0 then
             (if flt z (Some (- entry_threshold))
              then Inr (st\<lparr>position := 1,
                          trades := trades st @ [\<lparr>trade_kind = LONG, entry_time = tm, entry_price = p,
                                                  entry_zscore = z, trade_exit = None\<rparr>]\<rparr>)
              else if flt (Some entry_threshold) z
              then Inr (st\<lparr>position := - 1,
                          trades := trades st @ [\<lparr>trade_kind = SHORT, entry_time = tm, entry_price = p,
                                                  entry_zscore = z, trade_exit = None\<rparr>]\<rparr>)
              else Inr st)
           else if (position st = 1 \<and> fle (Some exit_threshold) z)
                 \<or> (position st = - 1 \<and> fle z (Some (- exit_threshold)))
           then
             (case close_pnl st p of
                Inl e \<Rightarrow> Inl e
              | Inr pnl \<Rightarrow>
                  Inr (st\<lparr>current_equity := fadd (current_equity st) pnl,
                         trades := update_last_trade tm p z pnl (trades st),
                         position := 0\<rparr>))
           else Inr st)
        of
          Inl e \<Rightarrow> Inl e
        | Inr st' \<Rightarrow> Inr (st'\<lparr>equity_curve := equity_curve st' @ [current_equity st']\<rparr>)))"

fun run_loop ::
  "real \<Rightarrow> real \<Rightarrow> (real option \<times> int \<times> real option) list \<Rightarrow> backtest_state \<Rightarrow> error + backtest_state" where
  "run_loop entry_threshold exit_threshold [] st = Inr st"
| "run_loop entry_threshold exit_threshold (row # rows) st =
     (case loop_body entry_threshold exit_threshold row st of
        Inl e \<Rightarrow> Inl e
      | Inr st' \<Rightarrow> run_loop entry_threshold exit_threshold rows st')"

text \<open>
  After the loop, \<open>if position != 0 and trades\<close>: the open trade is closed at the last
  spread value, and \<open>equity_curve[-1]\<close> is overwritten (IndexError on an empty curve).
\<close>

definition close_open_position :: "series \<Rightarrow> series \<Rightarrow> backtest_state \<Rightarrow> error + backtest_state" where
  "close_open_position spread zscore st =
     (if position st \<noteq> 0 \<and> trades st \<noteq> [] then
        (if spread = [] \<or> zscore = [] \<or> equity_curve st = [] then Inl IndexError
         else case close_pnl st (snd (last spread)) of
           Inl e \<Rightarrow> Inl e
         | Inr pnl \<Rightarrow>
             Inr (st\<lparr>current_equity := fadd (current_equity st) pnl,
                    trades := update_last_trade (fst (last spread)) (snd (last spread))
                                (snd (last zscore)) pnl (trades st),
                    equity_curve := butlast (equity_curve st) @ [fadd (current_equity st) pnl]\<rparr>))
      else Inr st)"

text \<open>
  \<open>_calculate_max_drawdown\<close>. The peak starts at the first equity, which is the starting
  capital or larger whenever the curve has two or more points, so the division by the peak
  is a division by a positive number there.
\<close>

fun drawdown_loop :: "real option \<Rightarrow> real \<Rightarrow> real option list \<Rightarrow> real" where
  "drawdown_loop peak max_dd [] = max_dd"
| "drawdown_loop peak max_dd (equity # rest) =
     (let peak' = (if flt peak equity then equity else peak);
          dd = fmul (fdiv (fsub peak' equity) peak') (Some 100);
          max_dd' = (if flt (Some max_dd) dd then the dd else max_dd)
      in drawdown_loop peak' max_dd' rest)"

definition calculate_max_drawdown :: "real option list \<Rightarrow> real" where
  "calculate_max_drawdown curve = (case curve of [] \<Rightarrow> 0 | e # rest \<Rightarrow> drawdown_loop e 0 curve)"

text \<open>The result dict: \<open>{}\<close>, the three keys returned when there is no trade, or all keys.\<close>

record backtest_stats =
  total_trades :: nat
  winning_trades :: nat
  losing_trades :: nat
  win_rate :: real
  total_pnl :: "real option"
  final_equity :: "real option"
  return_pct :: "real option"
  avg_win :: real
  avg_loss :: real
  profit_factor :: real
  max_drawdown :: real
  result_equity_curve :: "real option list"
  result_trades :: "trade list"

datatype backtest_result = NoResult | NoTrades "real option list" | Stats backtest_stats

definition statistics :: "backtest_state \<Rightarrow> backtest_result" where
  "statistics st =
     (if trades st = [] then NoTrades (equity_curve st)
      else
        (let completed_trades = filter (\<lambda>t. trade_exit t \<noteq> None) (trades st);
             pnls = map trade_pnl completed_trades;
             winning = observations (filter (\<lambda>p. flt (Some 0) p) pnls);
             losing = observations (filter (\<lambda>p. flt p (Some 0)) pnls)
         in Stats
           \<lparr>total_trades = length completed_trades,
            winning_trades = length winning,
            losing_trades = length losing,
            win_rate = (if completed_trades \<noteq> [] then real (length winning) / real (length completed_trades) else 0),
            total_pnl = fold (\<lambda>p acc. fadd acc p) pnls (Some 0),
            final_equity = current_equity st,
            return_pct = fmul (fdiv (fsub (current_equity st) (Some 100000)) (Some 100000)) (Some 100),
            avg_win = (if winning \<noteq> [] then mean winning else 0),
            avg_loss = (if losing \<noteq> [] then mean losing else 0),
            profit_factor = (if losing \<noteq> [] \<and> sum_list losing \<noteq> 0
                             then \<bar>sum_list winning / sum_list losing\<bar> else 0),
            max_drawdown = calculate_max_drawdown (equity_curve st),
            result_equity_curve = equity_curve st,
            result_trades = trades st\<rparr>))"

text \<open>
  \<open>run(spread, prices1, prices2, hedge_ratio, window)\<close>; the body reads neither price
  series nor the hedge ratio.
\<close>

definition run :: "real \<Rightarrow> real \<Rightarrow> series \<Rightarrow> int \<Rightarrow> error + backtest_result" where
  "run entry_threshold exit_threshold spread window =
     (if int (length spread) < window then Inr NoResult
      else case compute_zscore spread window of
        Inl e \<Rightarrow> Inl e
      | Inr zscore \<Rightarrow>
          (case run_loop entry_threshold exit_threshold
                  (drop (nat window) (zip (map snd zscore) spread)) initial_state of
             Inl e \<Rightarrow> Inl e
           | Inr st \<Rightarrow>
               (case close_open_position spread zscore st of
                  Inl e \<Rightarrow> Inl e
                | Inr st' \<Rightarrow> Inr (statistics st'))))"

text \<open>
  Shapes of a stretch of the z-score path, after the words of the specification: every
  z-score of the stretch is a number with the property \<open>P\<close>; some z-score of it is.
\<close>

definition zscores_all :: "(real \<Rightarrow> bool) \<Rightarrow> (real option \<times> int \<times> real option) list \<Rightarrow> bool" where
  "zscores_all P rows = list_all (\<lambda>(z, tm, p). case z of None \<Rightarrow> False | Some x \<Rightarrow> P x) rows"

definition zscores_some :: "(real \<Rightarrow> bool) \<Rightarrow> (real option \<times> int \<times> real option) list \<Rightarrow> bool" where
  "zscores_some P rows = list_ex (\<lambda>(z, tm, p). case z of None \<Rightarrow> False | Some x \<Rightarrow> P x) rows"

text \<open>
  A spread of 21 points whose z-scores over a window of 16 are, from position 16 on:
  0, about -3.75, 0, about 3.75, 0.
\<close>

definition spread_a :: series where
  "spread_a = zip [0, 1, 2, 3, 4, 5, 6, 7, 8, 9, 10, 11, 12, 13, 14, 15, 16, 17, 18, 19, 20]
     (map Some [5, 1, - 1, 1, - 1, 1, - 1, 1, - 1, 1, - 1, 1, - 1, 1, - 1, 0,
                0, - 150, - 10, 10660, 700])"

section \<open>Properties\<close>

subsection \<open>Resampler\<close>

lemma agg_bounds:
  assumes "agg_first ps = Some op" "agg_max ps = Some hi" "agg_min ps = Some lo"
    "agg_last ps = Some cl"
  shows "lo \<le> min op cl \<and> max op cl \<le> hi"
proof -
  from assms(1) obtain qs where ps: "ps = op # qs"
    by (auto simp: agg_first_def split: list.splits)
  then have ne: "ps \<noteq> []" by simp
  from assms(2) ne have hi: "hi = Max (set ps)" by (simp add: agg_max_def)
  from assms(3) ne have lo: "lo = Min (set ps)" by (simp add: agg_min_def)
  from assms(4) ne have cl: "cl = last ps" by (simp add: agg_last_def)
  have "op \<in> set ps" using ps by simp
  moreover have "cl \<in> set ps" using cl ne by simp
  ultimately show ?thesis using hi lo by simp
qed

lemma dropna_bar_Some:
  assumes "dropna_bar r = Some b"
  shows "raw_open r = Some (bar_open b) \<and> raw_high r = Some (bar_high b)
       \<and> raw_low r = Some (bar_low b) \<and> raw_close r = Some (bar_close b)
       \<and> raw_timestamp r = bar_timestamp b \<and> raw_symbol r = bar_symbol b
       \<and> raw_trade_count r = trade_count b"
  using assms by (auto simp: dropna_bar_def split: option.splits)

lemma resample_ticks_bar_origin:
  assumes "resample_ticks ticks tf = Inr bars" "b \<in> set bars"
  shows "\<exists>secs key r. map_of TIMEFRAMES tf = Some secs \<and> key \<in> set (group_keys ticks)
           \<and> r \<in> set (resample_group (secs * 1000) key (filter (\<lambda>t. symbol t = key) ticks))
           \<and> dropna_bar r = Some b"
proof -
  from assms(1) obtain secs where secs: "map_of TIMEFRAMES tf = Some secs"
    by (auto simp: resample_ticks_def split: option.splits)
  define raws where "raws = concat (map (\<lambda>key. resample_group (secs * 1000) key
                                        (filter (\<lambda>t. symbol t = key) ticks)) (group_keys ticks))"
  from assms secs have "b \<in> set (List.map_filter dropna_bar raws)"
    by (auto simp: resample_ticks_def raws_def split: if_splits)
  then obtain r where r: "r \<in> set raws" "dropna_bar r = Some b"
    by (auto simp: List.map_filter_def)
  from r(1) obtain key where "key \<in> set (group_keys ticks)"
    "r \<in> set (resample_group (secs * 1000) key (filter (\<lambda>t. symbol t = key) ticks))"
    by (auto simp: raws_def)
  with secs r(2) show ?thesis by blast
qed

lemma resample_group_row:
  assumes "r \<in> set (resample_group step key g)"
  shows "\<exists>e s. s = sort_key timestamp g \<and> s \<noteq> []
           \<and> e \<in> set (bin_labels step (timestamp (hd s)) (timestamp (last s)))
           \<and> r = aggregate_bin step key s e"
proof (cases "sort_key timestamp g")
  case Nil
  with assms show ?thesis by (simp add: resample_group_def)
next
  case (Cons t ts)
  with assms obtain e where
    "e \<in> set (bin_labels step (timestamp t) (timestamp (last (t # ts))))"
    "r = aggregate_bin step key (t # ts) e"
    by (auto simp: resample_group_def simp del: last.simps)
  with Cons show ?thesis by (auto simp del: last.simps)
qed

text \<open>
  C4. Every bar that \<open>resample_ticks\<close> returns has low at most min(open, close) and high at
  least max(open, close), for every tick frame and every timeframe.
\<close>

theorem resample_ohlc_consistent:
  assumes "resample_ticks ticks tf = Inr bars" and "b \<in> set bars"
  shows "bar_low b \<le> min (bar_open b) (bar_close b)
       \<and> max (bar_open b) (bar_close b) \<le> bar_high b"
proof -
  from resample_ticks_bar_origin [OF assms] obtain secs key r where
    r: "r \<in> set (resample_group (secs * 1000) key (filter (\<lambda>t. symbol t = key) ticks))"
    and d: "dropna_bar r = Some b" by blast
  from resample_group_row [OF r] obtain e s where
    agg: "r = aggregate_bin (secs * 1000) key s e" by blast
  define ps where "ps = map price (bin_ticks (secs * 1000) e s)"
  from agg have "raw_open r = agg_first ps" "raw_high r = agg_max ps"
    "raw_low r = agg_min ps" "raw_close r = agg_last ps"
    by (simp_all add: aggregate_bin_def ps_def Let_def)
  with dropna_bar_Some [OF d] have "agg_first ps = Some (bar_open b)"
    "agg_max ps = Some (bar_high b)" "agg_min ps = Some (bar_low b)"
    "agg_last ps = Some (bar_close b)" by simp_all
  then show ?thesis by (rule agg_bounds)
qed

lemma timeframe_step:
  assumes "map_of TIMEFRAMES tf = Some secs"
  shows "0 < secs * 1000 \<and> secs * 1000 dvd day_ms"
proof -
  from assms have "secs = 1 \<or> secs = 60 \<or> secs = 300"
    by (auto simp: TIMEFRAMES_def split: if_splits)
  then show ?thesis by (auto simp: day_ms_def)
qed

lemma first_edge_floor:
  assumes "step dvd day_ms"
  shows "first_edge step first = (first div step) * step"
proof -
  from assms have "step dvd bin_origin first" by (simp add: bin_origin_def)
  then have "(first - bin_origin first) mod step = first mod step"
    by (simp add: mod_diff_right_eq [symmetric] mod_eq_0_iff_dvd [symmetric])
  then show ?thesis
    by (simp add: first_edge_def minus_mod_eq_div_mult)
qed

lemma bin_label_dvd:
  assumes "step dvd day_ms" "e \<in> set (bin_labels step first lst)"
  shows "step dvd e"
  using assms by (auto simp: bin_labels_def first_edge_floor Let_def simp del: upt_Suc)

lemma in_bin_iff:
  assumes "0 < step" "step dvd e"
  shows "(e \<le> ts \<and> ts < e + step) \<longleftrightarrow> (ts div step) * step = (e::int)"
proof
  assume a: "e \<le> ts \<and> ts < e + step"
  from assms(2) obtain k where k: "e = k * step" by (auto simp: dvd_def mult.commute)
  have "((ts - e) + k * step) div step = (ts - e) div step + k"
    using assms(1) by simp
  moreover have "(ts - e) div step = 0"
    using a by (simp add: div_pos_pos_trivial)
  ultimately have "ts div step = k" using k by simp
  then show "(ts div step) * step = e" using k by simp
next
  assume a: "(ts div step) * step = e"
  have "ts = (ts div step) * step + ts mod step" by simp
  moreover have "0 \<le> ts mod step" "ts mod step < step" using assms(1) by simp_all
  ultimately show "e \<le> ts \<and> ts < e + step" using a by linarith
qed

lemma length_filter_sort_key:
  "length (filter P (sort_key f xs)) = length (filter P xs)"
  by (simp add: filter_sort)


text \<open>
  C5. Every bar that \<open>resample_ticks\<close> returns for a configured timeframe has a timestamp
  that is an exact multiple of the timeframe length in milliseconds, and that timestamp is
  \<open>floor(tick_timestamp / (timeframe_seconds*1000)) * timeframe_seconds*1000\<close> of the ticks
  aggregated into it: the bar counts exactly the ticks of its symbol with that bucket, and
  there is at least one.
\<close>

theorem resample_timestamp_multiple:
  assumes "resample_ticks ticks tf = Inr bars" and "b \<in> set bars"
  shows "\<exists>secs. map_of TIMEFRAMES tf = Some secs
           \<and> bar_timestamp b mod (secs * 1000) = 0
           \<and> filter (\<lambda>t. symbol t = bar_symbol b
                  \<and> (timestamp t div (secs * 1000)) * (secs * 1000) = bar_timestamp b) ticks \<noteq> []
           \<and> trade_count b = length (filter (\<lambda>t. symbol t = bar_symbol b
                  \<and> (timestamp t div (secs * 1000)) * (secs * 1000) = bar_timestamp b) ticks)"
proof -
  from resample_ticks_bar_origin [OF assms] obtain secs key r where
    secs: "map_of TIMEFRAMES tf = Some secs"
    and r: "r \<in> set (resample_group (secs * 1000) key (filter (\<lambda>t. symbol t = key) ticks))"
    and d: "dropna_bar r = Some b" by blast
  define step where "step = secs * 1000"
  from timeframe_step [OF secs] have pos: "0 < step" and dvd: "step dvd day_ms"
    by (simp_all add: step_def)
  from resample_group_row [OF r] obtain e s where
    s: "s = sort_key timestamp (filter (\<lambda>t. symbol t = key) ticks)"
    and e: "e \<in> set (bin_labels step (timestamp (hd s)) (timestamp (last s)))"
    and agg: "r = aggregate_bin step key s e" by (auto simp: step_def)
  from bin_label_dvd [OF dvd e] have edvd: "step dvd e" .
  from agg dropna_bar_Some [OF d] have ts: "bar_timestamp b = e" and sy: "bar_symbol b = key"
    and cnt: "trade_count b = length (bin_ticks step e s)"
    and op: "agg_first (map price (bin_ticks step e s)) = Some (bar_open b)"
    by (auto simp: aggregate_bin_def Let_def)
  let ?P = "\<lambda>t. symbol t = bar_symbol b \<and> (timestamp t div step) * step = bar_timestamp b"
  have "length (bin_ticks step e s) = length (filter (\<lambda>t. e \<le> timestamp t \<and> timestamp t < e + step)
          (filter (\<lambda>t. symbol t = key) ticks))"
    by (simp add: bin_ticks_def s length_filter_sort_key)
  also have "\<dots> = length (filter ?P ticks)"
    by (simp add: in_bin_iff [OF pos edvd] ts sy conj_commute)
  finally have len: "trade_count b = length (filter ?P ticks)" using cnt by simp
  from op have "bin_ticks step e s \<noteq> []" by (auto simp: agg_first_def)
  with cnt len have ne: "filter ?P ticks \<noteq> []" by auto
  from edvd ts have "bar_timestamp b mod step = 0" by simp
  with secs ne len show ?thesis unfolding step_def by (intro exI [of _ secs] conjI)
qed

lemma resample_ticks0: "resample_ticks ticks0 ''1m'' = Inr [bar0]"
  by (simp add: resample_ticks_def ticks0_def bar0_def TIMEFRAMES_def group_keys_def resample_group_def
    datetime_ms_def group_in_range_def bins_in_range_def
    bin_labels_def first_edge_def bin_origin_def day_ms_def aggregate_bin_def bin_ticks_def
    agg_first_def agg_last_def agg_max_def agg_min_def dropna_bar_def List.map_filter_def)

text \<open>
  The call returns for every configured timeframe when the timestamps lie between the first
  and the last midnight of the datetimes (1677-09-22 and 2262-04-11).
\<close>

lemma resample_ticks_returns:
  assumes "map_of TIMEFRAMES tf = Some secs"
    and "\<forall>t \<in> set ticks. - 9223286400000 \<le> timestamp t \<and> timestamp t < 9223286400000"
  shows "\<exists>bars. resample_ticks ticks tf = Inr bars"
proof -
  from timeframe_step [OF assms(1)] have pos: "0 < secs * 1000" and dvd: "secs * 1000 dvd day_ms"
    by simp_all
  from assms(1) have le: "secs * 1000 \<le> 300000"
    by (auto simp: TIMEFRAMES_def split: if_splits)
  have dt: "datetime_ms (timestamp t)" if "t \<in> set ticks" for t
    using assms(2) that by (auto simp: datetime_ms_def)
  have rng: "bins_in_range (secs * 1000) a b"
    if a: "- 9223286400000 \<le> a" "a < 9223286400000" and b: "- 9223286400000 \<le> b" "b < 9223286400000"
    for a b
  proof -
    have "(- 106751 * day_ms) div day_ms \<le> a div day_ms"
      using a(1) by (intro zdiv_mono1) (simp_all add: day_ms_def)
    then have "- 106751 \<le> a div day_ms" by (simp add: day_ms_def)
    then have o0: "- 9223286400000 \<le> bin_origin a" by (simp add: bin_origin_def day_ms_def)
    have o1: "bin_origin a \<le> a"
      using pos_mod_sign [of day_ms a]
      by (simp add: bin_origin_def day_ms_def minus_mod_eq_div_mult [symmetric])
    have m: "0 \<le> (b - bin_origin a) mod (secs * 1000)" "(b - bin_origin a) mod (secs * 1000) < secs * 1000"
      using pos by simp_all
    from o0 o1 a have "datetime_ms (bin_origin a)" by (simp add: datetime_ms_def)
    moreover from m le b have "datetime_ms (b - ((b - bin_origin a) mod (secs * 1000)) + secs * 1000)"
      by (simp add: datetime_ms_def)
    ultimately show ?thesis by (simp add: bins_in_range_def)
  qed
  have grp: "group_in_range (secs * 1000) (filter (\<lambda>t. symbol t = key) ticks)" for key
  proof (cases "sort_key timestamp (filter (\<lambda>t. symbol t = key) ticks)")
    case Nil
    then show ?thesis by (simp add: group_in_range_def)
  next
    case (Cons t ts)
    have sub: "set (t # ts) \<subseteq> set ticks"
      using Cons [symmetric] by (metis filter_is_subset set_sort)
    have "t \<in> set ticks" using sub by simp
    moreover have "last (t # ts) \<in> set ticks" using sub last_in_set [of "t # ts"] by blast
    ultimately have "bins_in_range (secs * 1000) (timestamp t) (timestamp (last (t # ts)))"
      using assms(2) by (intro rng) blast+
    with Cons show ?thesis by (simp add: group_in_range_def del: last.simps)
  qed
  from dt grp assms(1) show ?thesis
    by (simp add: resample_ticks_def list_all_iff)
qed

text \<open>A timestamp one millisecond after the last datetime: the call raises.\<close>

lemma resample_ticks_out_of_bounds:
  "resample_ticks [\<lparr>timestamp = 9223372036855, symbol = ''x'', price = 100, tick_size = 1\<rparr>] ''1s''
     = Inl OutOfBoundsDatetime"
  by (simp add: resample_ticks_def TIMEFRAMES_def datetime_ms_def)

theorem resample_timestamp_multiple_witness:
  "resample_ticks
     [\<lparr>timestamp = 120000, symbol = ''x'', price = 100, tick_size = 1\<rparr>,
      \<lparr>timestamp = 130000, symbol = ''x'', price = 105, tick_size = 2\<rparr>] ''1m''
   = Inr [\<lparr>bar_timestamp = 120000, bar_symbol = ''x'', bar_open = 100,
          bar_high = 105, bar_low = 100, bar_close = 105, bar_volume = 3,
          trade_count = 2\<rparr>]
   \<and> (120000::int) mod (60 * 1000) = 0"
proof -
  have r: "resample_ticks ticks0 ''1m'' = Inr [bar0]" by (rule resample_ticks0)
  have m: "bar0 \<in> set [bar0]" by simp
  from resample_timestamp_multiple [OF r m] show ?thesis
    using r by (simp add: ticks0_def bar0_def)
qed

theorem resample_ohlc_consistent_witness:
  "resample_ticks
     [\<lparr>timestamp = 120000, symbol = ''x'', price = 100, tick_size = 1\<rparr>,
      \<lparr>timestamp = 130000, symbol = ''x'', price = 105, tick_size = 2\<rparr>] ''1m''
   = Inr [\<lparr>bar_timestamp = 120000, bar_symbol = ''x'', bar_open = 100,
          bar_high = 105, bar_low = 100, bar_close = 105, bar_volume = 3,
          trade_count = 2\<rparr>]
   \<and> (100::real) \<le> min 100 105 \<and> max 100 105 \<le> (105::real)"
proof -
  have r: "resample_ticks ticks0 ''1m'' = Inr [bar0]" by (rule resample_ticks0)
  have m: "bar0 \<in> set [bar0]" by simp
  from resample_ohlc_consistent [OF r m] show ?thesis
    using r by (simp add: ticks0_def bar0_def)
qed

subsection \<open>Kalman hedge ratio\<close>

lemma length_kalman_loop [simp]: "length (kalman_loop q m beta P rows) = length rows"
  by (induction rows arbitrary: beta P) (auto simp: Let_def)

lemma length_kalman_P [simp]: "length (kalman_P q m beta P rows) = length rows"
  by (induction rows arbitrary: beta P) (auto simp: Let_def)

lemma kalman_first_update:
  "kalman_loop q m beta P ((l, y, x) # rows) ! 0 =
     (case (beta, P) of
        (Some b, Some p) \<Rightarrow>
          if x\<^sup>2 * (p + q) + m = 0 then None
          else Some (b + (p + q) * x / (x\<^sup>2 * (p + q) + m) * (y - b * x))
      | _ \<Rightarrow> None)
 \<and> kalman_P q m beta P ((l, y, x) # rows) ! 0 =
     (case P of
        Some p \<Rightarrow>
          if x\<^sup>2 * (p + q) + m = 0 then None
          else Some ((1 - (p + q) * x / (x\<^sup>2 * (p + q) + m) * x) * (p + q))
      | None \<Rightarrow> None)"
  by (auto simp: Let_def fadd_def fsub_def fmul_def fdiv_def power2_eq_square mult.commute
      mult.left_commute split: option.splits)

lemma kalman_loop_step:
  assumes "i < length rows" and "rows ! i = (l, y, x)"
  shows "(beta # kalman_loop q m beta P rows) ! Suc i =
     (case ((beta # kalman_loop q m beta P rows) ! i, (P # kalman_P q m beta P rows) ! i) of
        (Some b, Some p) \<Rightarrow>
          if x\<^sup>2 * (p + q) + m = 0 then None
          else Some (b + (p + q) * x / (x\<^sup>2 * (p + q) + m) * (y - b * x))
      | _ \<Rightarrow> None)
 \<and> (P # kalman_P q m beta P rows) ! Suc i =
     (case (P # kalman_P q m beta P rows) ! i of
        Some p \<Rightarrow>
          if x\<^sup>2 * (p + q) + m = 0 then None
          else Some ((1 - (p + q) * x / (x\<^sup>2 * (p + q) + m) * x) * (p + q))
      | None \<Rightarrow> None)"
  using assms
proof (induction rows arbitrary: beta P i)
  case Nil
  then show ?case by simp
next
  case (Cons r rows)
  obtain l' y' x' where r: "r = (l', y', x')" by (cases r) auto
  show ?case
  proof (cases i)
    case 0
    with Cons.prems r have e: "l' = l" "y' = y" "x' = x" by simp_all
    from kalman_first_update [of q m beta P l y x rows] 0 show ?thesis
      unfolding r e by (simp del: kalman_loop.simps kalman_P.simps)
  next
    case (Suc j)
    with Cons.prems have j: "j < length rows" "rows ! j = (l, y, x)" by simp_all
    define beta' where "beta' = kalman_loop q m beta P (r # rows) ! 0"
    define P' where "P' = kalman_P q m beta P (r # rows) ! 0"
    have tl: "kalman_loop q m beta P (r # rows) = beta' # kalman_loop q m beta' P' rows"
      "kalman_P q m beta P (r # rows) = P' # kalman_P q m beta' P' rows"
      unfolding beta'_def P'_def r by (simp_all add: Let_def)
    from Cons.IH [OF j, of beta' P'] Suc show ?thesis by (simp add: tl)
  qed
qed


lemma kalman_update_positive:
  fixes P q m x :: real
  assumes "0 < P" and "0 \<le> q" and "0 < m"
  shows "0 < x\<^sup>2 * (P + q) + m"
    and "0 < (1 - (P + q) * x / (x\<^sup>2 * (P + q) + m) * x) * (P + q)"
proof -
  have "0 \<le> x\<^sup>2" by simp
  moreover have "0 \<le> P + q" using assms by simp
  ultimately have nn: "0 \<le> x\<^sup>2 * (P + q)" by (rule mult_nonneg_nonneg)
  with assms(3) show S: "0 < x\<^sup>2 * (P + q) + m" by linarith
  have k: "1 - (P + q) * x / (x\<^sup>2 * (P + q) + m) * x = m / (x\<^sup>2 * (P + q) + m)"
    using S by (simp add: field_simps power2_eq_square)
  have "0 < m / (x\<^sup>2 * (P + q) + m)" using S assms(3) by (rule divide_pos_pos [rotated])
  moreover have "0 < P + q" using assms by simp
  ultimately have "0 < m / (x\<^sup>2 * (P + q) + m) * (P + q)" by (rule mult_pos_pos)
  then show "0 < (1 - (P + q) * x / (x\<^sup>2 * (P + q) + m) * x) * (P + q)"
    by (simp only: k)
qed

lemma kalman_finite:
  assumes "0 \<le> q" and "0 < m" and "0 < p" and "i < length rows"
  shows "\<exists>b p'. kalman_loop q m (Some b0) (Some p) rows ! i = Some b
               \<and> kalman_P q m (Some b0) (Some p) rows ! i = Some p' \<and> 0 < p'"
  using assms(3,4)
proof (induction rows arbitrary: b0 p i)
  case Nil
  then show ?case by simp
next
  case (Cons r rows)
  obtain l y x where r: "r = (l, y, x)" by (cases r) auto
  define b1 where "b1 = b0 + (p + q) * x / (x\<^sup>2 * (p + q) + m) * (y - b0 * x)"
  define p1 where "p1 = (1 - (p + q) * x / (x\<^sup>2 * (p + q) + m) * x) * (p + q)"
  from kalman_update_positive [OF Cons.prems(1) assms(1,2), of x]
  have S: "x\<^sup>2 * (p + q) + m \<noteq> 0" and pos: "0 < p1" by (simp_all add: p1_def)
  from kalman_first_update [of q m "Some b0" "Some p" l y x rows] S
  have first: "kalman_loop q m (Some b0) (Some p) (r # rows) ! 0 = Some b1"
    "kalman_P q m (Some b0) (Some p) (r # rows) ! 0 = Some p1"
    by (simp_all add: r b1_def p1_def del: kalman_loop.simps kalman_P.simps)
  have tl: "kalman_loop q m (Some b0) (Some p) (r # rows) = Some b1 # kalman_loop q m (Some b1) (Some p1) rows"
    "kalman_P q m (Some b0) (Some p) (r # rows) = Some p1 # kalman_P q m (Some b1) (Some p1) rows"
    using first unfolding r by (simp_all add: Let_def)
  show ?case
  proof (cases i)
    case 0
    with pos show ?thesis by (simp add: tl)
  next
    case (Suc j)
    with Cons.prems have "j < length rows" by simp
    from Cons.IH [OF pos this, of b1] Suc show ?thesis by (simp add: tl)
  qed
qed

lemma dropna_labels:
  "map fst (dropna fr) = map fst (filter (\<lambda>(l, u, v). u \<noteq> None \<and> v \<noteq> None) fr)"
  by (induction fr) (auto simp: dropna_def List.map_filter_def split: option.splits)

lemma length_dropna_le: "length (dropna fr) \<le> length fr"
  by (simp add: dropna_def List.map_filter_def)

lemma series_get_Some: "series_get a l = Some x \<Longrightarrow> l \<in> set (map fst a)"
  by (auto simp: series_get_def split: option.splits dest: map_of_SomeD intro: rev_image_eqI)

lemma data_frame_dropna_length:
  assumes "data_frame a b = Inr fr"
  shows "length (dropna fr) \<le> length a \<and> length (dropna fr) \<le> length b"
proof (cases "map fst a = map fst b")
  case True
  then have len: "length a = length b" by (metis length_map)
  from True assms have "length fr = min (length a) (length b)"
    by (auto simp: data_frame_def)
  with len length_dropna_le [of fr] show ?thesis by simp
next
  case False
  define labels where "labels = sort (remdups (map fst a @ map fst b))"
  from False assms have fr: "fr = map (\<lambda>l. (l, series_get a l, series_get b l)) labels"
    and da: "distinct (map fst a)" and db: "distinct (map fst b)"
    by (auto simp: data_frame_def labels_def split: if_splits)
  define kept where "kept = filter (\<lambda>l. series_get a l \<noteq> None \<and> series_get b l \<noteq> None) labels"
  have "map fst (dropna fr) = kept"
    by (simp add: dropna_labels fr kept_def filter_map comp_def)
  then have len: "length (dropna fr) = length kept" by (metis length_map)
  have dist: "distinct kept" by (simp add: kept_def labels_def)
  have "set kept \<subseteq> set (map fst a)" "set kept \<subseteq> set (map fst b)"
    by (auto simp: kept_def dest: series_get_Some)
  then have "card (set kept) \<le> card (set (map fst a))" "card (set kept) \<le> card (set (map fst b))"
    by (auto intro: card_mono)
  moreover have "card (set kept) = length kept" using dist by (rule distinct_card)
  moreover have "card (set (map fst a)) \<le> length a" "card (set (map fst b)) \<le> length b"
    using card_length [of "map fst a"] card_length [of "map fst b"] by simp_all
  ultimately have "length kept \<le> length a" "length kept \<le> length b"
    by linarith+
  with len show ?thesis by simp
qed

text \<open>
  C1. When the two price series, aligned on their index and with the rows holding a missing
  value dropped, leave n >= 2 rows, \<open>compute_kalman_hedge_ratio\<close> returns a beta sequence
  and a spread sequence of length n; \<open>beta[0]\<close> is the initial beta, with no update applied
  to the first row; for every i in [1, n-1] the values follow \<open>P_pred = P + q\<close>,
  \<open>r = y_i - beta*x_i\<close>, \<open>S = x_i^2 * P_pred + m\<close>, \<open>K = P_pred * x_i / S\<close>,
  \<open>beta_new = beta + K*r\<close>, \<open>P_new = (1 - K*x_i) * P_pred\<close>, starting from \<open>P = 1\<close>;
  the spread at index i is \<open>y_i - beta_i * x_i\<close>; and the defaults are initial beta 1.0,
  q = 0.01 and m = 0.1.

  The theorem holds for every q and m. A beta or covariance is \<open>Some\<close> of a number, or
  \<open>None\<close> when it is not a finite number. The step at row i gives the numbers of the
  formulas when the previous beta and covariance are numbers and \<open>S\<close> is not zero; with
  \<open>S = 0\<close> the quotient \<open>K\<close> is not a finite number, and neither is any value computed from
  it, at this row or a later one. With \<open>0 \<le> q\<close> and \<open>0 < m\<close>, as with the defaults, \<open>S\<close>
  is positive at every row, and every beta, covariance and spread is a number.
\<close>

theorem kalman_recursion:
  assumes "data_frame prices1 prices2 = Inr fr" and "2 \<le> length (dropna fr)"
  shows "\<exists>betas Ps hedge_ratios spreads.
           compute_kalman_hedge_ratio prices1 prices2 initial_beta q m = Inr (hedge_ratios, spreads)
         \<and> length hedge_ratios = length (dropna fr) \<and> length spreads = length (dropna fr)
         \<and> length betas = length (dropna fr) \<and> length Ps = length (dropna fr)
         \<and> betas ! 0 = Some initial_beta \<and> Ps ! 0 = Some 1
         \<and> (\<forall>i l y x. i < length (dropna fr) \<and> dropna fr ! i = (l, y, x) \<longrightarrow>
               hedge_ratios ! i = (l, betas ! i)
             \<and> spreads ! i = (l, case betas ! i of Some beta \<Rightarrow> Some (y - beta * x) | None \<Rightarrow> None))
         \<and> (\<forall>i l y x. 1 \<le> i \<and> i < length (dropna fr) \<and> dropna fr ! i = (l, y, x) \<longrightarrow>
               (case Ps ! (i - 1) of
                  None \<Rightarrow> betas ! i = None \<and> Ps ! i = None
                | Some P \<Rightarrow>
                    (let P_pred = P + q;
                         S = x\<^sup>2 * P_pred + m;
                         K = P_pred * x / S
                     in if S = 0 then betas ! i = None \<and> Ps ! i = None
                        else Ps ! i = Some ((1 - K * x) * P_pred)
                           \<and> (case betas ! (i - 1) of
                                None \<Rightarrow> betas ! i = None
                              | Some beta \<Rightarrow>
                                  (let r = y - beta * x in betas ! i = Some (beta + K * r))))))
         \<and> (0 \<le> q \<and> 0 < m \<longrightarrow>
               (\<forall>i < length (dropna fr). \<exists>beta P. betas ! i = Some beta \<and> Ps ! i = Some P \<and> 0 < P))
         \<and> compute_kalman_hedge_ratio_default prices1 prices2 =
             compute_kalman_hedge_ratio prices1 prices2 1 (1 / 100) (1 / 10)"
proof -
  define rows where "rows = dropna fr"
  define betas where "betas = Some initial_beta # kalman_loop q m (Some initial_beta) (Some 1) (tl rows)"
  define Ps where "Ps = Some 1 # kalman_P q m (Some initial_beta) (Some 1) (tl rows)"
  define hedge_ratios where "hedge_ratios = zip (map fst rows) betas"
  define spreads where
    "spreads = map2 (\<lambda>(l, y, x) b. (l, fsub (Some y) (fmul b (Some x)))) rows betas"
  from assms(2) have n: "2 \<le> length rows" by (simp add: rows_def)
  from data_frame_dropna_length [OF assms(1)] assms(2)
  have "\<not> (length prices1 < 2 \<or> length prices2 < 2)" by simp
  with assms n have run: "compute_kalman_hedge_ratio prices1 prices2 initial_beta q m =
      Inr (hedge_ratios, spreads)"
    by (simp add: compute_kalman_hedge_ratio_def Let_def rows_def betas_def hedge_ratios_def
        spreads_def)
  have lb: "length betas = length rows" and lp: "length Ps = length rows"
    using n by (simp_all add: betas_def Ps_def)
  then have lh: "length hedge_ratios = length rows" and ls: "length spreads = length rows"
    by (simp_all add: hedge_ratios_def spreads_def)
  have b0: "betas ! 0 = Some initial_beta" and P0: "Ps ! 0 = Some 1"
    by (simp_all add: betas_def Ps_def)
  have out: "hedge_ratios ! i = (l, betas ! i)
      \<and> spreads ! i = (l, case betas ! i of Some beta \<Rightarrow> Some (y - beta * x) | None \<Rightarrow> None)"
    if "i < length rows" "rows ! i = (l, y, x)" for i l y x
    using that lb
    by (simp add: hedge_ratios_def spreads_def fsub_def fmul_def split: option.splits)
  have step: "(case Ps ! (i - 1) of
                  None \<Rightarrow> betas ! i = None \<and> Ps ! i = None
                | Some P \<Rightarrow>
                    (let P_pred = P + q;
                         S = x\<^sup>2 * P_pred + m;
                         K = P_pred * x / S
                     in if S = 0 then betas ! i = None \<and> Ps ! i = None
                        else Ps ! i = Some ((1 - K * x) * P_pred)
                           \<and> (case betas ! (i - 1) of
                                None \<Rightarrow> betas ! i = None
                              | Some beta \<Rightarrow>
                                  (let r = y - beta * x in betas ! i = Some (beta + K * r)))))"
    if i: "1 \<le> i" "i < length rows" and row: "rows ! i = (l, y, x)" for i l y x
  proof -
    from i obtain j where j: "i = Suc j" by (cases i) auto
    with i have jl: "j < length (tl rows)" by simp
    from j i row have jr: "tl rows ! j = (l, y, x)" by (simp add: nth_tl)
    from kalman_loop_step [OF jl jr, of "Some initial_beta" q m "Some 1"] j show ?thesis
      unfolding betas_def [symmetric] Ps_def [symmetric]
      by (simp add: Let_def split: option.splits)
  qed
  have fin: "\<exists>beta P. betas ! i = Some beta \<and> Ps ! i = Some P \<and> 0 < P"
    if qm: "0 \<le> q \<and> 0 < m" and i: "i < length rows" for i
  proof (cases i)
    case 0
    then show ?thesis by (simp add: betas_def Ps_def)
  next
    case (Suc j)
    with i have jl: "j < length (tl rows)" by simp
    from qm have q: "0 \<le> q" and m: "0 < m" by simp_all
    from kalman_finite [OF q m _ jl, of 1 initial_beta] Suc show ?thesis
      by (simp add: betas_def Ps_def)
  qed
  have dflt: "compute_kalman_hedge_ratio_default prices1 prices2 =
             compute_kalman_hedge_ratio prices1 prices2 1 (1 / 100) (1 / 10)"
    by (simp add: compute_kalman_hedge_ratio_default_def)
  from run lb lp lh ls b0 P0 out step fin dflt show ?thesis
    unfolding rows_def [symmetric]
    by (intro exI [of _ betas] exI [of _ Ps] exI [of _ hedge_ratios] exI [of _ spreads] conjI)
       (simp_all only: rows_def [symmetric], blast+)
qed

lemma data_frame_ab: "data_frame prices_a prices_b = Inr frame_ab"
  by (simp add: data_frame_def prices_a_def prices_b_def frame_ab_def)

lemma dropna_ab: "dropna frame_ab = [(0, 1, 1), (1, 2, 1)]"
  by (simp add: dropna_def List.map_filter_def frame_ab_def)


theorem kalman_recursion_witness:
  "data_frame prices_a prices_b = Inr frame_ab \<and> 2 \<le> length (dropna frame_ab)
   \<and> (0::real) \<le> 1 / 100 \<and> (0::real) < 1 / 10
   \<and> (\<exists>(betas :: real option list) (Ps :: real option list) hedge_ratios spreads.
         compute_kalman_hedge_ratio prices_a prices_b 1 (1 / 100) (1 / 10) = Inr (hedge_ratios, spreads)
       \<and> length betas = 2 \<and> betas ! 0 = Some 1 \<and> betas ! 1 = Some (212 / 111)
       \<and> Ps ! 1 = Some (101 / 1110)
       \<and> hedge_ratios ! 1 = (1, Some (212 / 111)) \<and> spreads ! 1 = (1, Some (10 / 111)))"
proof -
  have len: "2 \<le> length (dropna frame_ab)" by (simp add: dropna_ab)
  from kalman_recursion [OF data_frame_ab len, of 1 "1 / 100" "1 / 10"]
  obtain betas Ps hedge_ratios spreads where
    run: "compute_kalman_hedge_ratio prices_a prices_b 1 (1 / 100) (1 / 10) = Inr (hedge_ratios, spreads)"
    and lb: "length betas = length (dropna frame_ab)"
    and b0: "betas ! 0 = Some 1" and P0: "Ps ! 0 = Some 1"
    and out: "\<forall>i l y x. i < length (dropna frame_ab) \<and> dropna frame_ab ! i = (l, y, x) \<longrightarrow>
               hedge_ratios ! i = (l, betas ! i)
             \<and> spreads ! i = (l, case betas ! i of Some beta \<Rightarrow> Some (y - beta * x) | None \<Rightarrow> None)"
    and step: "\<forall>i l y x. 1 \<le> i \<and> i < length (dropna frame_ab) \<and> dropna frame_ab ! i = (l, y, x) \<longrightarrow>
               (case Ps ! (i - 1) of
                  None \<Rightarrow> betas ! i = None \<and> Ps ! i = None
                | Some P \<Rightarrow>
                    (let P_pred = P + 1 / 100;
                         S = x\<^sup>2 * P_pred + 1 / 10;
                         K = P_pred * x / S
                     in if S = 0 then betas ! i = None \<and> Ps ! i = None
                        else Ps ! i = Some ((1 - K * x) * P_pred)
                           \<and> (case betas ! (i - 1) of
                                None \<Rightarrow> betas ! i = None
                              | Some beta \<Rightarrow>
                                  (let r = y - beta * x in betas ! i = Some (beta + K * r)))))"
    and fin: "0 \<le> (1 / 100 :: real) \<and> 0 < (1 / 10 :: real) \<longrightarrow>
               (\<forall>i < length (dropna frame_ab). \<exists>beta P. betas ! i = Some beta \<and> Ps ! i = Some P \<and> 0 < P)"
    by blast
  from step [rule_format, of 1 1 2 1] b0 P0
  have b1: "betas ! 1 = Some (212 / 111)" and P1: "Ps ! 1 = Some (101 / 1110)"
    by (simp_all add: dropna_ab Let_def)
  from out [rule_format, of 1 1 2 1] b1
  have o1: "hedge_ratios ! 1 = (1, Some (212 / 111)) \<and> spreads ! 1 = (1, Some (10 / 111))"
    by (simp add: dropna_ab)
  from lb have lb2: "length betas = 2" by (simp add: dropna_ab)
  have qm: "(0::real) \<le> 1 / 100 \<and> (0::real) < 1 / 10" by simp
  from run lb2 b0 b1 P1 o1 data_frame_ab len qm show ?thesis by blast
qed

text \<open>
  With both variances zero and a second price of zero the innovation covariance is zero at
  the first update: the call returns, and the updated beta and spread are not numbers.
\<close>

lemma kalman_zero_innovation:
  "compute_kalman_hedge_ratio [(0, Some 1), (1, Some 2)] [(0, Some 1), (1, Some 0)] 1 0 0 =
     Inr ([(0, Some 1), (1, None)], [(0, Some 0), (1, None)])"
  by (simp add: compute_kalman_hedge_ratio_def data_frame_def dropna_def List.map_filter_def
      Let_def fadd_def fsub_def fmul_def fdiv_def)


subsection \<open>Rolling z-score\<close>

lemma length_rolling [simp]: "length (rolling w need f xs) = length xs"
  by (simp add: rolling_def)

lemma rolling_nth:
  assumes "i < length xs"
  shows "rolling w need f xs ! i =
           (if i + 1 < w then None
            else case those (window_values w i xs) of
                   None \<Rightarrow> None
                 | Some ys \<Rightarrow> if length ys < need then None else Some (f ys))"
  using assms by (simp add: rolling_def)

lemma window_values_nth:
  assumes "w \<le> i + 1" and "i < length xs"
  shows "window_values w i xs = map (\<lambda>j. xs ! j) [i + 1 - w ..< i + 1]"
proof (rule nth_equalityI)
  show "length (window_values w i xs) = length (map (\<lambda>j. xs ! j) [i + 1 - w ..< i + 1])"
    using assms by (auto simp: window_values_def simp del: upt_Suc)
next
  fix k assume "k < length (window_values w i xs)"
  with assms have "k < w" by (simp add: window_values_def)
  with assms show "window_values w i xs ! k = map (\<lambda>j. xs ! j) [i + 1 - w ..< i + 1] ! k"
    by (simp add: window_values_def del: upt_Suc)
qed

lemma those_map_Some: "those (map (\<lambda>j. Some (x j)) js) = Some (map x js)"
  by (induction js) simp_all

lemma those_None:
  assumes "None \<in> set vs"
  shows "those vs = None"
  using assms by (induction vs) (auto split: option.splits)

lemma sum_list_window: "sum_list (map f [a ..< Suc i]) = (\<Sum>j = a..i. f j)"
  by (simp add: interv_sum_list_conv_sum_set_nat atLeastLessThanSuc_atLeastAtMost del: upt_Suc)

lemma zscore_nth:
  assumes "compute_zscore s window = Inr z" and "window \<le> int (length s)"
  shows "0 \<le> window \<and> length z = length s \<and> map fst z = map fst s
       \<and> (\<forall>i < length s. snd (z ! i) =
             fdiv (fsub (snd (s ! i)) (rolling (nat window) 1 mean (map snd s) ! i))
                  (rolling (nat window) 2 sample_std (map snd s) ! i))"
  using assms by (auto simp: compute_zscore_def Let_def split: if_splits)

lemma zscore_short:
  assumes "compute_zscore s window = Inr z" and "int (length s) < window"
  shows "z = []"
  using assms by (simp add: compute_zscore_def)

lemma fdiv_None [simp]: "fdiv a None = None"
  by (simp add: fdiv_def split: option.splits)


lemma fdiv_None_left [simp]: "fdiv None b = None"
  by (simp add: fdiv_def)

lemma fsub_None [simp]: "fsub a None = None"
  by (simp add: fsub_def split: option.splits)

lemma those_length:
  assumes "those vs = Some ys"
  shows "length ys = length vs"
  using assms by (induction vs arbitrary: ys) (auto split: option.splits)

lemma zscore_warmup:
  assumes "compute_zscore s window = Inr z" and "i < length z" and "int i < window - 1"
  shows "snd (z ! i) = None"
proof (cases "int (length s) < window")
  case True
  from zscore_short [OF assms(1) True] assms(2) show ?thesis by simp
next
  case False
  with zscore_nth [OF assms(1)] assms(2) have il: "i < length s"
    and zi: "snd (z ! i) = fdiv (fsub (snd (s ! i)) (rolling (nat window) 1 mean (map snd s) ! i))
                  (rolling (nat window) 2 sample_std (map snd s) ! i)"
    by simp_all
  from assms(3) have "i + 1 < nat window" by simp
  with il have "rolling (nat window) 2 sample_std (map snd s) ! i = None"
    by (simp add: rolling_nth)
  with zi show ?thesis by simp
qed

lemma zscore_window_one:
  assumes "compute_zscore s window = Inr z" and "i < length z" and "window \<le> 1"
  shows "snd (z ! i) = None"
proof (cases "int (length s) < window")
  case True
  from zscore_short [OF assms(1) True] assms(2) show ?thesis by simp
next
  case False
  with zscore_nth [OF assms(1)] assms(2) have il: "i < length s"
    and zi: "snd (z ! i) = fdiv (fsub (snd (s ! i)) (rolling (nat window) 1 mean (map snd s) ! i))
                  (rolling (nat window) 2 sample_std (map snd s) ! i)"
    by simp_all
  have "length (window_values (nat window) i (map snd s)) \<le> 1"
    using assms(3) by (simp add: window_values_def)
  then have "rolling (nat window) 2 sample_std (map snd s) ! i = None"
    using il by (auto simp: rolling_nth split: option.splits dest: those_length)
  with zi show ?thesis by simp
qed

lemma zscore_missing:
  assumes "compute_zscore s window = Inr z" and "i < length s" and "window - 1 \<le> int i"
    and "j \<in> {i + 1 - nat window .. i}" and "snd (s ! j) = None"
  shows "snd (z ! i) = None"
proof -
  from assms(2,3) have wl: "window \<le> int (length s)" by simp
  from zscore_nth [OF assms(1) wl] assms(2) have w0: "0 \<le> window"
    and zi: "snd (z ! i) = fdiv (fsub (snd (s ! i)) (rolling (nat window) 1 mean (map snd s) ! i))
                  (rolling (nat window) 2 sample_std (map snd s) ! i)"
    by simp_all
  from assms(3) w0 have wi: "nat window \<le> i + 1" by simp
  from assms(4) have "j \<in> set [i + 1 - nat window ..< i + 1]"
    by (simp del: upt_Suc)
  then have "map snd s ! j \<in> set (map (\<lambda>j. map snd s ! j) [i + 1 - nat window ..< i + 1])"
    by (simp del: upt_Suc)
  moreover from assms(2,4,5) have "map snd s ! j = None" by simp
  ultimately have "None \<in> set (window_values (nat window) i (map snd s))"
    using window_values_nth [OF wi, of "map snd s"] assms(2) by simp
  then have "those (window_values (nat window) i (map snd s)) = None" by (rule those_None)
  with assms(2) have "rolling (nat window) 2 sample_std (map snd s) ! i = None"
    by (simp add: rolling_nth)
  with zi show ?thesis by simp
qed

lemma zscore_formula:
  assumes "compute_zscore s window = Inr z" and "i < length s" and "window - 1 \<le> int i"
    and "2 \<le> window" and "\<forall>j \<in> {i + 1 - nat window .. i}. snd (s ! j) = Some (x j)"
  shows "snd (z ! i) =
     (let w = nat window;
          \<mu> = (\<Sum>j = i + 1 - w .. i. x j) / real w;
          \<sigma> = sqrt ((\<Sum>j = i + 1 - w .. i. (x j - \<mu>)\<^sup>2) / (real w - 1))
      in if \<sigma> = 0 then None else Some ((x i - \<mu>) / \<sigma>))"
proof -
  define w where "w = nat window"
  define js where "js = [i + 1 - w ..< i + 1]"
  define ys where "ys = map x js"
  from assms(2,3) have wl: "window \<le> int (length s)" by simp
  from zscore_nth [OF assms(1) wl] assms(2)
  have zi: "snd (z ! i) = fdiv (fsub (snd (s ! i)) (rolling w 1 mean (map snd s) ! i))
                  (rolling w 2 sample_std (map snd s) ! i)"
    by (simp add: w_def)
  from assms(3,4) have wi: "w \<le> i + 1" and w2: "2 \<le> w" by (simp_all add: w_def)
  have "window_values w i (map snd s) = map (\<lambda>j. map snd s ! j) js"
    using window_values_nth [OF wi, of "map snd s"] assms(2) by (simp add: js_def)
  also have "\<dots> = map (\<lambda>j. Some (x j)) js"
    using assms(2,5) by (auto simp: js_def w_def simp del: upt_Suc)
  finally have th: "those (window_values w i (map snd s)) = Some ys"
    by (simp add: those_map_Some ys_def)
  have ly: "length ys = w" using wi by (simp add: ys_def js_def del: upt_Suc)
  from wi have nsk: "\<not> i + 1 < w" by simp
  have rm: "rolling w 1 mean (map snd s) ! i = Some (mean ys)"
    using assms(2) th ly w2 nsk by (simp add: rolling_nth)
  have rs: "rolling w 2 sample_std (map snd s) ! i = Some (sample_std ys)"
    using assms(2) th ly w2 nsk by (simp add: rolling_nth)
  have xi: "snd (s ! i) = Some (x i)" using assms(5) w2 by (simp add: w_def)
  have sl: "sum_list ys = (\<Sum>j = i + 1 - w .. i. x j)"
    using sum_list_window [of x "i + 1 - w" i] by (simp add: ys_def js_def del: upt_Suc)
  have mu: "mean ys = (\<Sum>j = i + 1 - w .. i. x j) / real w"
    by (simp only: mean_def sl ly)
  define c where "c = mean ys"
  have sl2: "sum_list (map (\<lambda>v. (v - c)\<^sup>2) ys) = (\<Sum>j = i + 1 - w .. i. (x j - c)\<^sup>2)"
    using sum_list_window [of "\<lambda>j. (x j - c)\<^sup>2" "i + 1 - w" i]
    by (simp add: ys_def js_def comp_def del: upt_Suc)
  have sd: "sample_std ys = sqrt ((\<Sum>j = i + 1 - w .. i. (x j - mean ys)\<^sup>2) / (real w - 1))"
    using sl2 by (simp only: sample_std_def ly c_def)
  from zi rm rs xi have "snd (z ! i) =
      (if sample_std ys = 0 then None else Some ((x i - mean ys) / sample_std ys))"
    by (simp add: fdiv_def fsub_def)
  then show ?thesis unfolding Let_def w_def [symmetric] mu [symmetric] sd [symmetric] .
qed

lemma zscore_local:
  assumes "compute_zscore s window = Inr z" and "compute_zscore s' window = Inr z'"
    and "i < length s" and "i < length s'" and "window - 1 \<le> int i"
    and "\<forall>j \<in> {i + 1 - nat window .. i}. snd (s ! j) = snd (s' ! j)"
  shows "snd (z ! i) = snd (z' ! i)"
proof -
  define w where "w = nat window"
  from assms(3,4,5) have wl: "window \<le> int (length s)" "window \<le> int (length s')" by simp_all
  from zscore_nth [OF assms(1) wl(1)] assms(3)
  have w0: "0 \<le> window" and zi: "snd (z ! i) = fdiv (fsub (snd (s ! i)) (rolling w 1 mean (map snd s) ! i))
                  (rolling w 2 sample_std (map snd s) ! i)"
    by (simp_all add: w_def)
  from zscore_nth [OF assms(2) wl(2)] assms(4)
  have zi': "snd (z' ! i) = fdiv (fsub (snd (s' ! i)) (rolling w 1 mean (map snd s') ! i))
                  (rolling w 2 sample_std (map snd s') ! i)"
    by (simp add: w_def)
  from assms(5) w0 have wi: "w \<le> i + 1" by (simp add: w_def)
  have "map (\<lambda>j. map snd s ! j) [i + 1 - w ..< i + 1] = map (\<lambda>j. map snd s' ! j) [i + 1 - w ..< i + 1]"
    using assms(3,4,6) by (auto simp: w_def simp del: upt_Suc)
  then have win: "window_values w i (map snd s) = window_values w i (map snd s')"
    using window_values_nth [OF wi, of "map snd s"] window_values_nth [OF wi, of "map snd s'"]
      assms(3,4) by simp
  show ?thesis
  proof (cases "w = 0")
    case True
    with zi zi' assms(3,4) show ?thesis by (simp add: rolling_nth window_values_def)
  next
    case False
    with assms(6) have "snd (s ! i) = snd (s' ! i)" by (simp add: w_def)
    with zi zi' win assms(3,4) show ?thesis by (simp add: rolling_nth)
  qed
qed


text \<open>
  C6. For a series and a window w, the rolling z-score at an index i >= w-1 is
  \<open>(x_i - mean(x_{i-w+1..i})) / std(x_{i-w+1..i})\<close>, with the sample standard deviation,
  and so depends only on the observations in [i-w+1, i]: two series that agree there have the
  same z-score at i. At every index i < w-1 the z-score is undefined (NaN), and for a series
  shorter than w the result is empty. The remaining cases give no number either: a window
  holding a missing value, a window of at most one observation, a zero standard deviation.
\<close>

theorem zscore_window:
  assumes "compute_zscore s window = Inr z"
  shows "(int (length s) < window \<longrightarrow> z = [])
       \<and> (window \<le> int (length s) \<longrightarrow> length z = length s \<and> map fst z = map fst s)
       \<and> (i < length z \<and> int i < window - 1 \<longrightarrow> snd (z ! i) = None)
       \<and> (i < length z \<and> window \<le> 1 \<longrightarrow> snd (z ! i) = None)
       \<and> (i < length s \<and> window - 1 \<le> int i
            \<and> (\<exists>j \<in> {i + 1 - nat window .. i}. snd (s ! j) = None) \<longrightarrow> snd (z ! i) = None)
       \<and> (i < length s \<and> window - 1 \<le> int i \<and> 2 \<le> window
            \<and> (\<forall>j \<in> {i + 1 - nat window .. i}. snd (s ! j) = Some (x j)) \<longrightarrow>
            snd (z ! i) =
              (let w = nat window;
                   \<mu> = (\<Sum>j = i + 1 - w .. i. x j) / real w;
                   \<sigma> = sqrt ((\<Sum>j = i + 1 - w .. i. (x j - \<mu>)\<^sup>2) / (real w - 1))
               in if \<sigma> = 0 then None else Some ((x i - \<mu>) / \<sigma>)))
       \<and> (compute_zscore s' window = Inr z' \<and> i < length s \<and> i < length s' \<and> window - 1 \<le> int i
            \<and> (\<forall>j \<in> {i + 1 - nat window .. i}. snd (s ! j) = snd (s' ! j)) \<longrightarrow>
            snd (z ! i) = snd (z' ! i))"
proof (intro conjI impI)
  assume "int (length s) < window"
  with assms show "z = []" by (rule zscore_short)
next
  assume "window \<le> int (length s)"
  with zscore_nth [OF assms] show "length z = length s" by simp
next
  assume "window \<le> int (length s)"
  with zscore_nth [OF assms] show "map fst z = map fst s" by simp
next
  assume "i < length z \<and> int i < window - 1"
  with assms show "snd (z ! i) = None" by (simp add: zscore_warmup)
next
  assume "i < length z \<and> window \<le> 1"
  with assms show "snd (z ! i) = None" by (simp add: zscore_window_one)
next
  assume "i < length s \<and> window - 1 \<le> int i
            \<and> (\<exists>j \<in> {i + 1 - nat window .. i}. snd (s ! j) = None)"
  with assms show "snd (z ! i) = None" by (blast intro: zscore_missing)
next
  assume a: "i < length s \<and> window - 1 \<le> int i \<and> 2 \<le> window
            \<and> (\<forall>j \<in> {i + 1 - nat window .. i}. snd (s ! j) = Some (x j))"
  then have a1: "i < length s" and a2: "window - 1 \<le> int i" and a3: "2 \<le> window"
    and a4: "\<forall>j \<in> {i + 1 - nat window .. i}. snd (s ! j) = Some (x j)" by blast+
  from zscore_formula [OF assms a1 a2 a3 a4] show "snd (z ! i) =
              (let w = nat window;
                   \<mu> = (\<Sum>j = i + 1 - w .. i. x j) / real w;
                   \<sigma> = sqrt ((\<Sum>j = i + 1 - w .. i. (x j - \<mu>)\<^sup>2) / (real w - 1))
               in if \<sigma> = 0 then None else Some ((x i - \<mu>) / \<sigma>))" .
next
  assume "compute_zscore s' window = Inr z' \<and> i < length s \<and> i < length s' \<and> window - 1 \<le> int i
            \<and> (\<forall>j \<in> {i + 1 - nat window .. i}. snd (s ! j) = snd (s' ! j))"
  then have b0: "compute_zscore s' window = Inr z'" and b1: "i < length s" and b2: "i < length s'"
    and b3: "window - 1 \<le> int i"
    and b4: "\<forall>j \<in> {i + 1 - nat window .. i}. snd (s ! j) = snd (s' ! j)" by blast+
  from zscore_local [OF assms b0 b1 b2 b3 b4] show "snd (z ! i) = snd (z' ! i)" .
qed

theorem zscore_window_witness:
  "\<exists>z z'. compute_zscore series_a 2 = Inr z \<and> compute_zscore series_b 2 = Inr z'
     \<and> length z = 3 \<and> snd (z ! 0) = None \<and> snd (z ! 2) = Some (1 / sqrt 2)
     \<and> snd (z ! 2) = snd (z' ! 2)"
proof -
  obtain z where z: "compute_zscore series_a 2 = Inr z"
    by (simp add: compute_zscore_def series_a_def Let_def)
  obtain z' where z': "compute_zscore series_b 2 = Inr z'"
    by (simp add: compute_zscore_def series_b_def Let_def)
  have ball: "\<forall>j \<in> {2 + 1 - nat 2 .. 2}. snd (series_a ! j) = Some (2 * real j + 1)"
  proof
    fix j :: nat assume "j \<in> {2 + 1 - nat 2 .. 2}"
    then have "j = 1 \<or> j = 2" by auto
    then show "snd (series_a ! j) = Some (2 * real j + 1)" by (auto simp: series_a_def)
  qed
  have ball': "\<forall>j \<in> {2 + 1 - nat 2 .. 2}. snd (series_a ! j) = snd (series_b ! j)"
  proof
    fix j :: nat assume "j \<in> {2 + 1 - nat 2 .. 2}"
    then have "j = 1 \<or> j = 2" by auto
    then show "snd (series_a ! j) = snd (series_b ! j)" by (auto simp: series_a_def series_b_def)
  qed
  have l: "length series_a = 3" "length series_b = 3" by (simp_all add: series_a_def series_b_def)
  have s12: "{Suc 0..2} = {1, 2::nat}" by auto
  note t = zscore_window [OF z, of _ "\<lambda>j. 2 * real j + 1" series_b z']
  from t [of 0] l have len: "length z = 3" by simp
  from t [of 0] len have z0: "snd (z ! 0) = None" by simp
  from t [of 2] ball l have z2: "snd (z ! 2) = Some (1 / sqrt 2)"
    by (simp add: Let_def s12)
  from t [of 2] ball' l z' have loc: "snd (z ! 2) = snd (z' ! 2)" by simp
  from z z' len z0 z2 loc show ?thesis by blast
qed

subsection \<open>Insufficient input\<close>







subsection \<open>Alert engine\<close>




lemma length_evaluations [simp]: "length (evaluations py_eval rs context) = length rs"
  by (induction rs arbitrary: "context") (auto split: prod.splits)













text \<open>
  A condition can rebind the symbol field of the context. In \<open>manager_b\<close> the first rule
  does so: the second rule, with the symbol filter \<open>ethusdt\<close>, is then evaluated on a
  context whose symbol field is \<open>ethusdt\<close>, although the call of \<open>check_alerts\<close> got a
  context with the symbol \<open>btcusdt\<close>.
\<close>

lemma symbol_rebound_before_visit:
  "rules manager_b = [(''r_set'', rule_rebind), (''r_eth'', rule_eth)]
 \<and> evaluations (python_eval parse_known process_a) (rules manager_b) context_pair =
     [(context_pair, True, AList.update ''symbol'' (PStr ''ethusdt'') context_pair),
      (AList.update ''symbol'' (PStr ''ethusdt'') context_pair, True,
       AList.update ''symbol'' (PStr ''ethusdt'') context_pair)]
 \<and> evaluate (python_eval parse_known process_a) rule_eth context_pair = (False, context_pair)"
  by (simp add: manager_b_def add_rule_def AlertManager_def rule_rebind_def rule_eth_def
      AlertRule_def evaluate_def symbol_set_def python_eval_def parse_known_def context_pair_def)

text \<open>
  A rule built with the empty string as its symbol is evaluated for every symbol, like a
  rule built with no symbol.
\<close>

lemma empty_symbol_is_no_filter:
  "rule_symbol rule_empty_symbol = Some []
 \<and> evaluate (python_eval parse_known process_a) rule_empty_symbol context_btc = (True, context_btc)"
  by (simp add: evaluate_def rule_empty_symbol_def AlertRule_def symbol_set_def python_eval_def
      parse_known_def context_btc_def)

text \<open>
  C2. Evaluating a rule's condition is meant to read only the named fields of the context,
  and no program state outside it, whatever the condition string. The code does not achieve
  this: \<open>eval\<close> with empty \<open>__builtins__\<close> still evaluates attribute access and calls,
  and the condition \<open>().__class__.__base__.__subclasses__().__len__() > 2\<close> reaches
  the list of classes of the running program. For one and the same rule and the same empty
  context, \<open>evaluate\<close> returns False in a process with two such classes and True in a
  process with three.
\<close>

theorem condition_reads_process_state:
  "evaluate (python_eval parse_known process_a) rule_probe [] = (False, [])
 \<and> evaluate (python_eval parse_known process_b) rule_probe [] = (True, [])"
  by (simp add: evaluate_def rule_probe_def AlertRule_def symbol_set_def python_eval_def
      parse_known_def process_a_def process_b_def get_attr_def call_def)

subsection \<open>Storage reads\<close>

lemma sorted_sort_values: "sorted (map ts (sort_values ts rows))"
  by (simp add: sort_values_def)

lemma mset_sort_values [simp]: "mset (sort_values ts rows) = mset rows"
  by (simp add: sort_values_def)

lemma take_rev_sorted:
  "take n (rev xs) = rev (drop (length xs - n) xs)"
  by (simp add: take_rev)

lemma params_bound_eq:
  "params_bound start_time end_time limit
     = (\<forall>a \<in> {start_time, end_time, limit}. \<forall>k. a = Some k \<and> k \<noteq> 0 \<longrightarrow> - (2 ^ 63) \<le> k \<and> k < 2 ^ 63)"
  by (auto simp: params_bound_def int_set_def sqlite_integer_def split: option.splits)

lemma set_sql_where:
  "set (sql_where sy ts s start_time end_time table)
     = {r \<in> set table. sy r = s
          \<and> (\<forall>k. start_time = Some k \<and> k \<noteq> 0 \<longrightarrow> k \<le> ts r)
          \<and> (\<forall>k. end_time = Some k \<and> k \<noteq> 0 \<longrightarrow> ts r \<le> k)}"
  by (auto simp: sql_where_def int_set_def split: option.splits)

lemma query_limit:
  fixes ts :: "'r \<Rightarrow> int"
  assumes "limit = Some n" and "0 < n"
    and "res = sort_values ts (sql_limit limit (order_by_desc ts rows))"
  shows "length res = min (nat n) (length rows)
       \<and> mset res \<subseteq># mset rows
       \<and> (\<forall>r \<in> set res. \<forall>r' \<in># mset rows - mset res. ts r' \<le> ts r)"
proof -
  note res_def = assms(3)
  define S where "S = sort_key ts rows"
  define k where "k = length S - nat n"
  have res: "mset res = mset (drop k S)"
    using assms by (simp add: res_def sql_limit_def int_set_def order_by_desc_def take_rev S_def k_def)
  have split: "mset rows = mset (take k S) + mset (drop k S)"
    by (metis S_def append_take_drop_id mset_append mset_sort)
  have len: "length res = min (nat n) (length rows)"
  proof -
    have "length res = size (mset res)" by simp
    also have "\<dots> = length (drop k S)" using res by simp
    also have "\<dots> = min (nat n) (length rows)" by (auto simp: k_def S_def)
    finally show ?thesis .
  qed
  have sub: "mset res \<subseteq># mset rows" using res split by simp
  have rest: "mset rows - mset res = mset (take k S)" using res split by simp
  have srt: "sorted (map ts S)" by (simp add: S_def)
  have ord: "ts r' \<le> ts r" if "r \<in> set (drop k S)" "r' \<in> set (take k S)" for r r'
  proof -
    from that(1) obtain i where i: "i < length (drop k S)" "drop k S ! i = r"
      by (auto simp: in_set_conv_nth)
    from that(2) obtain j where j: "j < length (take k S)" "take k S ! j = r'"
      by (auto simp: in_set_conv_nth)
    from i j have "j \<le> k + i" "k + i < length S" "S ! j = r'" "S ! (k + i) = r" by auto
    with srt show ?thesis
      by (metis sorted_iff_nth_mono length_map nth_map order_le_less_trans)
  qed
  have "\<forall>r \<in> set res. \<forall>r' \<in># mset rows - mset res. ts r' \<le> ts r"
  proof (intro ballI)
    fix r r' assume "r \<in> set res" "r' \<in># mset rows - mset res"
    then have "r \<in> set (drop k S)" "r' \<in> set (take k S)"
      using res rest by (metis set_mset_mset)+
    then show "ts r' \<le> ts r" by (rule ord)
  qed
  with len sub show ?thesis by blast
qed

lemma query_no_limit:
  assumes "\<not> int_set limit"
  shows "mset (sort_values ts (sql_limit limit (order_by_desc ts rows))) = mset rows"
  using assms by (simp add: sql_limit_def order_by_desc_def)


lemma query_sorted:
  "sorted (map ts (sort_values ts (sql_limit limit (order_by_desc ts rows))))"
  by (rule sorted_sort_values)

lemma query_subset:
  "mset (sort_values ts (sql_limit limit (order_by_desc ts rows))) \<subseteq># mset rows"
proof -
  have "mset (take k (rev (sort_key ts rows))) \<subseteq># mset rows" for k
    by (metis append_take_drop_id mset_append mset_rev mset_sort mset_subset_eq_add_left)
  then show ?thesis by (simp add: sql_limit_def order_by_desc_def)
qed

lemma query_all:
  assumes "limit = None \<or> (\<exists>n. limit = Some n \<and> n \<le> 0)"
  shows "mset (sort_values ts (sql_limit limit (order_by_desc ts rows))) = mset rows"
  using assms by (auto simp: sql_limit_def order_by_desc_def int_set_def)

text \<open>
  C10 (amended). A read returns when each of \<open>start_time\<close>, \<open>end_time\<close> and \<open>limit\<close>
  that is passed and not 0 is a 64-bit signed integer (and, for \<open>get_bars\<close>, the timeframe
  is a configured one); otherwise it raises. The rows it selects are the stored rows of
  the symbol with \<open>timestamp >= start_time\<close> when \<open>start_time\<close> is passed and not 0, and
  \<open>timestamp <= end_time\<close> when \<open>end_time\<close> is passed and not 0: a bound that is None or 0
  is not applied. A read that returns gives selected rows ordered by ascending timestamp,
  whatever the insertion order. With a limit N >= 1 the rows returned are the
  min(N, number of selected rows) selected rows with the greatest timestamps: every selected
  row left out has a timestamp at most that of every row returned. Without a limit, and
  with a limit of 0 or a negative limit, all selected rows are returned.
\<close>

theorem reads_ascending_most_recent:
  "((\<exists>ticks. get_ticks db s start_time end_time limit = Inr ticks)
      = (\<forall>a \<in> {start_time, end_time, limit}. \<forall>k. a = Some k \<and> k \<noteq> 0 \<longrightarrow> - (2 ^ 63) \<le> k \<and> k < 2 ^ 63))
 \<and> ((\<exists>bs. get_bars db s timeframe start_time end_time limit = Inr bs)
      = (timeframe \<in> fst ` set TIMEFRAMES
       \<and> (\<forall>a \<in> {start_time, end_time, limit}. \<forall>k. a = Some k \<and> k \<noteq> 0 \<longrightarrow> - (2 ^ 63) \<le> k \<and> k < 2 ^ 63)))
 \<and> set (sql_where symbol timestamp s start_time end_time (ticks_table db))
      = {r \<in> set (ticks_table db). symbol r = s
           \<and> (\<forall>k. start_time = Some k \<and> k \<noteq> 0 \<longrightarrow> k \<le> timestamp r)
           \<and> (\<forall>k. end_time = Some k \<and> k \<noteq> 0 \<longrightarrow> timestamp r \<le> k)}
 \<and> set (sql_where bar_symbol bar_timestamp s start_time end_time table)
      = {r \<in> set table. bar_symbol r = s
           \<and> (\<forall>k. start_time = Some k \<and> k \<noteq> 0 \<longrightarrow> k \<le> bar_timestamp r)
           \<and> (\<forall>k. end_time = Some k \<and> k \<noteq> 0 \<longrightarrow> bar_timestamp r \<le> k)}
 \<and> (get_ticks db s start_time end_time limit = Inr ticks \<longrightarrow>
       sorted (map timestamp ticks)
     \<and> mset ticks \<subseteq># mset (sql_where symbol timestamp s start_time end_time (ticks_table db))
     \<and> (limit = Some n \<and> 0 < n \<longrightarrow>
           length ticks
             = min (nat n) (length (sql_where symbol timestamp s start_time end_time (ticks_table db)))
         \<and> (\<forall>r \<in> set ticks.
              \<forall>r' \<in># mset (sql_where symbol timestamp s start_time end_time (ticks_table db))
                       - mset ticks.
                timestamp r' \<le> timestamp r))
     \<and> (limit = None \<or> (\<exists>n. limit = Some n \<and> n \<le> 0) \<longrightarrow>
           mset ticks = mset (sql_where symbol timestamp s start_time end_time (ticks_table db))))
 \<and> (get_bars db s timeframe start_time end_time limit = Inr bs
       \<and> map_of (bars_tables db) timeframe = Some table \<longrightarrow>
       sorted (map bar_timestamp bs)
     \<and> mset bs \<subseteq># mset (sql_where bar_symbol bar_timestamp s start_time end_time table)
     \<and> (limit = Some n \<and> 0 < n \<longrightarrow>
           length bs = min (nat n) (length (sql_where bar_symbol bar_timestamp s start_time end_time table))
         \<and> (\<forall>r \<in> set bs.
              \<forall>r' \<in># mset (sql_where bar_symbol bar_timestamp s start_time end_time table) - mset bs.
                bar_timestamp r' \<le> bar_timestamp r))
     \<and> (limit = None \<or> (\<exists>n. limit = Some n \<and> n \<le> 0) \<longrightarrow>
           mset bs = mset (sql_where bar_symbol bar_timestamp s start_time end_time table)))"
proof -
  define M where "M = sql_where symbol timestamp s start_time end_time (ticks_table db)"
  have r1: "(\<exists>ticks. get_ticks db s start_time end_time limit = Inr ticks)
      = (\<forall>a \<in> {start_time, end_time, limit}. \<forall>k. a = Some k \<and> k \<noteq> 0 \<longrightarrow> - (2 ^ 63) \<le> k \<and> k < 2 ^ 63)"
    by (simp add: get_ticks_def params_bound_eq)
  have r2: "(\<exists>bs. get_bars db s timeframe start_time end_time limit = Inr bs)
      = (timeframe \<in> fst ` set TIMEFRAMES
       \<and> (\<forall>a \<in> {start_time, end_time, limit}. \<forall>k. a = Some k \<and> k \<noteq> 0 \<longrightarrow> - (2 ^ 63) \<le> k \<and> k < 2 ^ 63))"
  proof (cases "map_of TIMEFRAMES timeframe")
    case None
    then have "timeframe \<notin> fst ` set TIMEFRAMES" by (simp add: map_of_eq_None_iff)
    with None show ?thesis by (simp add: get_bars_def)
  next
    case (Some secs)
    then have "timeframe \<in> fst ` set TIMEFRAMES" by (metis map_of_eq_None_iff option.distinct(1))
    with Some show ?thesis by (simp add: get_bars_def params_bound_eq)
  qed
  have w1: "set M = {r \<in> set (ticks_table db). symbol r = s
           \<and> (\<forall>k. start_time = Some k \<and> k \<noteq> 0 \<longrightarrow> k \<le> timestamp r)
           \<and> (\<forall>k. end_time = Some k \<and> k \<noteq> 0 \<longrightarrow> timestamp r \<le> k)}"
    unfolding M_def by (rule set_sql_where)
  have w2: "set (sql_where bar_symbol bar_timestamp s start_time end_time table)
      = {r \<in> set table. bar_symbol r = s
           \<and> (\<forall>k. start_time = Some k \<and> k \<noteq> 0 \<longrightarrow> k \<le> bar_timestamp r)
           \<and> (\<forall>k. end_time = Some k \<and> k \<noteq> 0 \<longrightarrow> bar_timestamp r \<le> k)}"
    by (rule set_sql_where)
  have t: "sorted (map timestamp ticks)
     \<and> mset ticks \<subseteq># mset M
     \<and> (limit = Some n \<and> 0 < n \<longrightarrow>
           length ticks = min (nat n) (length M)
         \<and> (\<forall>r \<in> set ticks. \<forall>r' \<in># mset M - mset ticks. timestamp r' \<le> timestamp r))
     \<and> (limit = None \<or> (\<exists>n. limit = Some n \<and> n \<le> 0) \<longrightarrow> mset ticks = mset M)"
    if g: "get_ticks db s start_time end_time limit = Inr ticks"
  proof -
    from g have gt: "ticks = sort_values timestamp (sql_limit limit (order_by_desc timestamp M))"
      by (auto simp: get_ticks_def M_def split: if_splits)
    have t1: "sorted (map timestamp ticks)" unfolding gt by (rule query_sorted)
    have t2: "mset ticks \<subseteq># mset M" unfolding gt by (rule query_subset)
    have t3: "limit = Some n \<and> 0 < n \<longrightarrow>
           length ticks = min (nat n) (length M)
         \<and> (\<forall>r \<in> set ticks. \<forall>r' \<in># mset M - mset ticks. timestamp r' \<le> timestamp r)"
      using query_limit [OF _ _ gt, of n] by blast
    have t4: "limit = None \<or> (\<exists>n. limit = Some n \<and> n \<le> 0) \<longrightarrow> mset ticks = mset M"
      unfolding gt using query_all [of limit timestamp M] by blast
    from t1 t2 t3 t4 show ?thesis by blast
  qed
  have b: "sorted (map bar_timestamp bs)
     \<and> mset bs \<subseteq># mset (sql_where bar_symbol bar_timestamp s start_time end_time table)
     \<and> (limit = Some n \<and> 0 < n \<longrightarrow>
           length bs = min (nat n) (length (sql_where bar_symbol bar_timestamp s start_time end_time table))
         \<and> (\<forall>r \<in> set bs.
              \<forall>r' \<in># mset (sql_where bar_symbol bar_timestamp s start_time end_time table) - mset bs.
                bar_timestamp r' \<le> bar_timestamp r))
     \<and> (limit = None \<or> (\<exists>n. limit = Some n \<and> n \<le> 0) \<longrightarrow>
           mset bs = mset (sql_where bar_symbol bar_timestamp s start_time end_time table))"
    if g: "get_bars db s timeframe start_time end_time limit = Inr bs"
      and tb: "map_of (bars_tables db) timeframe = Some table"
  proof -
    define B where "B = sql_where bar_symbol bar_timestamp s start_time end_time table"
    from g tb have gb: "bs = sort_values bar_timestamp (sql_limit limit (order_by_desc bar_timestamp B))"
      by (auto simp: get_bars_def B_def split: option.splits if_splits)
    have b1: "sorted (map bar_timestamp bs)" unfolding gb by (rule query_sorted)
    have b2: "mset bs \<subseteq># mset B" unfolding gb by (rule query_subset)
    have b3: "limit = Some n \<and> 0 < n \<longrightarrow>
           length bs = min (nat n) (length B)
         \<and> (\<forall>r \<in> set bs. \<forall>r' \<in># mset B - mset bs. bar_timestamp r' \<le> bar_timestamp r)"
      using query_limit [OF _ _ gb, of n] by blast
    have b4: "limit = None \<or> (\<exists>n. limit = Some n \<and> n \<le> 0) \<longrightarrow> mset bs = mset B"
      unfolding gb using query_all [of limit bar_timestamp B] by blast
    from b1 b2 b3 b4 show ?thesis unfolding B_def by blast
  qed
  from t have t': "get_ticks db s start_time end_time limit = Inr ticks \<longrightarrow>
       sorted (map timestamp ticks)
     \<and> mset ticks \<subseteq># mset M
     \<and> (limit = Some n \<and> 0 < n \<longrightarrow>
           length ticks = min (nat n) (length M)
         \<and> (\<forall>r \<in> set ticks. \<forall>r' \<in># mset M - mset ticks. timestamp r' \<le> timestamp r))
     \<and> (limit = None \<or> (\<exists>n. limit = Some n \<and> n \<le> 0) \<longrightarrow> mset ticks = mset M)"
    by (rule impI)
  from b have b': "get_bars db s timeframe start_time end_time limit = Inr bs
       \<and> map_of (bars_tables db) timeframe = Some table \<longrightarrow>
       sorted (map bar_timestamp bs)
     \<and> mset bs \<subseteq># mset (sql_where bar_symbol bar_timestamp s start_time end_time table)
     \<and> (limit = Some n \<and> 0 < n \<longrightarrow>
           length bs = min (nat n) (length (sql_where bar_symbol bar_timestamp s start_time end_time table))
         \<and> (\<forall>r \<in> set bs.
              \<forall>r' \<in># mset (sql_where bar_symbol bar_timestamp s start_time end_time table) - mset bs.
                bar_timestamp r' \<le> bar_timestamp r))
     \<and> (limit = None \<or> (\<exists>n. limit = Some n \<and> n \<le> 0) \<longrightarrow>
           mset bs = mset (sql_where bar_symbol bar_timestamp s start_time end_time table))"
    by (intro impI) (elim conjE)
  note parts = r1 r2 w1 [unfolded M_def] w2 t' [unfolded M_def] b'
  show ?thesis
    by (rule conjI [OF parts(1) conjI [OF parts(2) conjI [OF parts(3) conjI [OF parts(4)
          conjI [OF parts(5) parts(6)]]]]])
qed

lemma tick_at_simps [simp]: "timestamp (tick_at ts s) = ts" "symbol (tick_at ts s) = s"
  by (simp_all add: tick_at_def)

lemma bar_at_simps [simp]: "bar_timestamp (bar_at ts s) = ts" "bar_symbol (bar_at ts s) = s"
  by (simp_all add: bar_at_def)

lemma get_ticks_storage_a_2:
  "get_ticks storage_a ''x'' None None (Some 2) = Inr [tick_at 2000 ''x'', tick_at 3000 ''x'']"
  by (simp add: get_ticks_def params_bound_def sqlite_integer_def storage_a_def sql_where_def
      int_set_def order_by_desc_def sql_limit_def sort_values_def)

lemma get_bars_storage_a_2:
  "get_bars storage_a ''x'' ''1m'' None None (Some 2) = Inr [bar_at 60000 ''x'', bar_at 120000 ''x'']"
  by (simp add: get_bars_def params_bound_def sqlite_integer_def storage_a_def TIMEFRAMES_def
      sql_where_def int_set_def order_by_desc_def sql_limit_def sort_values_def)

lemma get_ticks_storage_a_from:
  "get_ticks storage_a ''x'' (Some 1500) None None = Inr [tick_at 2000 ''x'', tick_at 3000 ''x'']"
  by (simp add: get_ticks_def params_bound_def sqlite_integer_def storage_a_def sql_where_def
      int_set_def order_by_desc_def sql_limit_def sort_values_def)

theorem reads_ascending_most_recent_witness:
  "get_ticks storage_a ''x'' None None (Some 2) = Inr [tick_at 2000 ''x'', tick_at 3000 ''x'']
 \<and> get_bars storage_a ''x'' ''1m'' None None (Some 2) = Inr [bar_at 60000 ''x'', bar_at 120000 ''x'']
 \<and> map_of (bars_tables storage_a) ''1m'' = Some [bar_at 120000 ''x'', bar_at 0 ''x'', bar_at 60000 ''x'']
 \<and> sorted (map timestamp [tick_at 2000 ''x'', tick_at 3000 ''x''])
 \<and> length [tick_at 2000 ''x'', tick_at 3000 ''x'']
     = min (nat 2) (length (sql_where symbol timestamp ''x'' None None (ticks_table storage_a)))
 \<and> length [bar_at 60000 ''x'', bar_at 120000 ''x'']
     = min (nat 2) (length (sql_where bar_symbol bar_timestamp ''x'' None None
                              [bar_at 120000 ''x'', bar_at 0 ''x'', bar_at 60000 ''x'']))
 \<and> get_ticks storage_a ''x'' (Some 1500) None None = Inr [tick_at 2000 ''x'', tick_at 3000 ''x'']
 \<and> mset [tick_at 2000 ''x'', tick_at 3000 ''x'']
     = mset (sql_where symbol timestamp ''x'' (Some 1500) None (ticks_table storage_a))"
proof -
  have tb: "map_of (bars_tables storage_a) ''1m''
      = Some [bar_at 120000 ''x'', bar_at 0 ''x'', bar_at 60000 ''x'']"
    by (simp add: storage_a_def)
  have n: "Some (2::int) = Some 2 \<and> (0::int) < 2" by simp
  note t = reads_ascending_most_recent [of storage_a "''x''" None None "Some 2" "''1m''"
      "[bar_at 120000 ''x'', bar_at 0 ''x'', bar_at 60000 ''x'']"
      "[tick_at 2000 ''x'', tick_at 3000 ''x'']" 2
      "[bar_at 60000 ''x'', bar_at 120000 ''x'']"]
  note u = reads_ascending_most_recent [of storage_a "''x''" "Some 1500" None None "''1m''"
      "[]" "[tick_at 2000 ''x'', tick_at 3000 ''x'']" 0 "[]"]
  from u get_ticks_storage_a_from
  have all: "mset [tick_at 2000 ''x'', tick_at 3000 ''x'']
     = mset (sql_where symbol timestamp ''x'' (Some 1500) None (ticks_table storage_a))"
    by blast
  from t n get_bars_storage_a_2 tb get_ticks_storage_a_2 get_ticks_storage_a_from all
  show ?thesis by blast
qed

text \<open>
  With \<open>limit=0\<close> all three stored rows of the symbol come back, not zero rows; and with
  \<open>limit=2**63\<close> the read raises and returns no rows at all.
\<close>

theorem limit_zero_counterexample:
  "get_ticks storage_a ''x'' None None (Some 0)
     = Inr [tick_at 1000 ''x'', tick_at 2000 ''x'', tick_at 3000 ''x'']
 \<and> get_bars storage_a ''x'' ''1m'' None None (Some 0)
     = Inr [bar_at 0 ''x'', bar_at 60000 ''x'', bar_at 120000 ''x'']
 \<and> get_ticks storage_a ''x'' None None (Some (2 ^ 63)) = Inl OverflowError
 \<and> get_bars storage_a ''x'' ''1m'' None None (Some (2 ^ 63)) = Inl OverflowError"
  by (simp add: get_ticks_def get_bars_def params_bound_def sqlite_integer_def storage_a_def
      TIMEFRAMES_def sql_where_def int_set_def order_by_desc_def sql_limit_def sort_values_def)

subsection \<open>Pipeline lifecycle\<close>

text \<open>
  C9 (amended). \<open>start\<close> on a running pipeline changes nothing and logs one warning: the
  running flag, the threads and the websocket client are as before and no thread is
  started. \<open>stop\<close> has no check of the running flag: on a pipeline that is not running it
  leaves the flag false and the threads as they are and starts no thread, but it logs no
  warning; it logs the info message of an ordinary stop, and when a websocket client exists
  from an earlier start, that client's \<open>stop\<close> is invoked again. With no client, or with a
  client already stopped, the processor is unchanged.
\<close>

theorem lifecycle_misuse:
  "(running dp \<longrightarrow> start dp = (dp, [Log WARNING ''Data processor already running'']))
 \<and> (\<not> running dp \<longrightarrow>
       running (fst (stop dp)) = False
     \<and> resampling_threads (fst (stop dp)) = resampling_threads dp
     \<and> tick_buffers (fst (stop dp)) = tick_buffers dp
     \<and> filter is_warning (snd (stop dp)) = []
     \<and> filter is_thread_start (snd (stop dp)) = []
     \<and> last (snd (stop dp)) = Log INFO ''Data processor stopped''
     \<and> (dp_ws_client dp = None \<longrightarrow> stop dp = (dp, [Log INFO ''Data processor stopped'']))
     \<and> (dp_ws_client dp = Some ws \<and> \<not> ws_running ws \<longrightarrow> fst (stop dp) = dp)
     \<and> (dp_ws_client dp = Some ws \<longrightarrow>
           snd (stop dp) = snd (ws_stop ws) @ [Log INFO ''Data processor stopped'']))"
  by (auto simp: start_def stop_def ws_stop_def split: option.splits)

theorem lifecycle_misuse_witness:
  "running (fst (start processor_a))
 \<and> start (fst (start processor_a)) = (fst (start processor_a), [Log WARNING ''Data processor already running''])
 \<and> \<not> running (fst (stop (fst (start processor_a))))
 \<and> fst (stop (fst (stop (fst (start processor_a))))) = fst (stop (fst (start processor_a)))
 \<and> filter is_warning (snd (stop (fst (stop (fst (start processor_a)))))) = []
 \<and> \<not> running processor_a
 \<and> stop processor_a = (processor_a, [Log INFO ''Data processor stopped''])"
proof -
  have r: "running (fst (start processor_a))"
    by (simp add: start_def processor_a_def DataProcessor_def ws_start_def
        BinanceWebSocketClient_def Let_def)
  have s: "\<not> running (fst (stop (fst (start processor_a))))"
    by (simp add: stop_def ws_stop_def split: option.splits prod.splits)
  have w: "\<exists>ws. dp_ws_client (fst (stop (fst (start processor_a)))) = Some ws \<and> \<not> ws_running ws"
    by (simp add: start_def stop_def processor_a_def DataProcessor_def ws_start_def ws_stop_def
        BinanceWebSocketClient_def Let_def)
  then obtain ws where ws: "dp_ws_client (fst (stop (fst (start processor_a)))) = Some ws"
    "\<not> ws_running ws" by blast
  have n: "\<not> running processor_a" "dp_ws_client processor_a = None"
    by (simp_all add: processor_a_def DataProcessor_def)
  from lifecycle_misuse [of "fst (start processor_a)"] r
  have a: "start (fst (start processor_a)) = (fst (start processor_a), [Log WARNING ''Data processor already running''])"
    by blast
  from lifecycle_misuse [of "fst (stop (fst (start processor_a)))" ws] s ws
  have b: "fst (stop (fst (stop (fst (start processor_a))))) = fst (stop (fst (start processor_a)))"
    "filter is_warning (snd (stop (fst (stop (fst (start processor_a)))))) = []"
    by blast+
  from lifecycle_misuse [of processor_a] n
  have c: "stop processor_a = (processor_a, [Log INFO ''Data processor stopped''])" by blast
  from r a s b n(1) c show ?thesis by blast
qed

text \<open>
  \<open>stop\<close> on a processor that was never started: the only log record is the info
  message, no warning.
\<close>

theorem stop_without_warning_counterexample:
  "\<not> running processor_a
 \<and> stop processor_a = (processor_a, [Log INFO ''Data processor stopped''])
 \<and> filter is_warning (snd (stop processor_a)) = []"
  by (simp add: stop_def processor_a_def DataProcessor_def)

subsection \<open>Backtest\<close>

lemma run_loop_append:
  "run_loop en ex (xs @ ys) st =
     (case run_loop en ex xs st of Inl e \<Rightarrow> Inl e | Inr st' \<Rightarrow> run_loop en ex ys st')"
  by (induction xs arbitrary: st) (auto split: sum.splits)

lemma zscores_all_Cons:
  "zscores_all P ((z, tm, p) # rows) \<longleftrightarrow> (\<exists>x. z = Some x \<and> P x) \<and> zscores_all P rows"
  by (auto simp: zscores_all_def split: option.splits)

lemma zscores_some_Cons:
  "zscores_some P ((z, tm, p) # rows) \<longleftrightarrow> (\<exists>x. z = Some x \<and> P x) \<or> zscores_some P rows"
  by (auto simp: zscores_some_def split: option.splits)

lemma zscores_some_Nil [simp]: "\<not> zscores_some P []"
  by (simp add: zscores_some_def)

text \<open>No entry while flat and the z-score stays within the entry band.\<close>

lemma hold_flat:
  assumes "position st = 0" and "zscores_all (\<lambda>x. - 2 \<le> x \<and> x \<le> 2) rows"
  shows "run_loop 2 0 rows st =
           Inr (st\<lparr>equity_curve := equity_curve st @ replicate (length rows) (current_equity st)\<rparr>)"
  using assms
proof (induction rows arbitrary: st)
  case Nil
  then show ?case by simp
next
  case (Cons row rows)
  obtain z tm p where row: "row = (z, tm, p)" by (cases row) auto
  from Cons.prems(2) row obtain x where z: "z = Some x" "- 2 \<le> x" "x \<le> 2"
    and rest: "zscores_all (\<lambda>x. - 2 \<le> x \<and> x \<le> 2) rows"
    by (auto simp: zscores_all_Cons)
  let ?st = "st\<lparr>equity_curve := equity_curve st @ [current_equity st]\<rparr>"
  have b: "loop_body 2 0 row st = Inr ?st"
    using Cons.prems(1) z by (simp add: loop_body_def row flt_def)
  have "run_loop 2 0 rows ?st =
      Inr (?st\<lparr>equity_curve := equity_curve ?st @ replicate (length rows) (current_equity ?st)\<rparr>)"
    using Cons.prems(1) rest by (intro Cons.IH) simp_all
  with b show ?case by (simp add: replicate_app_Cons_same)
qed

text \<open>No exit while long and the z-score is negative, or short and it is positive.\<close>

lemma hold_long:
  assumes "position st = 1" and "zscores_all (\<lambda>x. x < 0) rows"
  shows "run_loop 2 0 rows st =
           Inr (st\<lparr>equity_curve := equity_curve st @ replicate (length rows) (current_equity st)\<rparr>)"
  using assms
proof (induction rows arbitrary: st)
  case Nil
  then show ?case by simp
next
  case (Cons row rows)
  obtain z tm p where row: "row = (z, tm, p)" by (cases row) auto
  from Cons.prems(2) row obtain x where z: "z = Some x" "x < 0"
    and rest: "zscores_all (\<lambda>x. x < 0) rows"
    by (auto simp: zscores_all_Cons)
  let ?st = "st\<lparr>equity_curve := equity_curve st @ [current_equity st]\<rparr>"
  have b: "loop_body 2 0 row st = Inr ?st"
    using Cons.prems(1) z by (simp add: loop_body_def row fle_def)
  have "run_loop 2 0 rows ?st =
      Inr (?st\<lparr>equity_curve := equity_curve ?st @ replicate (length rows) (current_equity ?st)\<rparr>)"
    using Cons.prems(1) rest by (intro Cons.IH) simp_all
  with b show ?case by (simp add: replicate_app_Cons_same)
qed

lemma hold_short:
  assumes "position st = - 1" and "zscores_all (\<lambda>x. 0 < x) rows"
  shows "run_loop 2 0 rows st =
           Inr (st\<lparr>equity_curve := equity_curve st @ replicate (length rows) (current_equity st)\<rparr>)"
  using assms
proof (induction rows arbitrary: st)
  case Nil
  then show ?case by simp
next
  case (Cons row rows)
  obtain z tm p where row: "row = (z, tm, p)" by (cases row) auto
  from Cons.prems(2) row obtain x where z: "z = Some x" "0 < x"
    and rest: "zscores_all (\<lambda>x. 0 < x) rows"
    by (auto simp: zscores_all_Cons)
  let ?st = "st\<lparr>equity_curve := equity_curve st @ [current_equity st]\<rparr>"
  have b: "loop_body 2 0 row st = Inr ?st"
    using Cons.prems(1) z by (simp add: loop_body_def row fle_def)
  have "run_loop 2 0 rows ?st =
      Inr (?st\<lparr>equity_curve := equity_curve ?st @ replicate (length rows) (current_equity ?st)\<rparr>)"
    using Cons.prems(1) rest by (intro Cons.IH) simp_all
  with b show ?case by (simp add: replicate_app_Cons_same)
qed

text \<open>A dip below -3 through negative z-scores opens exactly one long trade.\<close>

lemma enter_long:
  assumes "position st = 0" and "zscores_all (\<lambda>x. x < 0) rows" and "zscores_some (\<lambda>x. x < - 3) rows"
  shows "\<exists>t. trade_kind t = LONG \<and> trade_exit t = None
           \<and> run_loop 2 0 rows st =
               Inr (st\<lparr>position := 1, trades := trades st @ [t],
                       equity_curve := equity_curve st @ replicate (length rows) (current_equity st)\<rparr>)"
  using assms
proof (induction rows arbitrary: st)
  case Nil
  then show ?case by simp
next
  case (Cons row rows)
  obtain z tm p where row: "row = (z, tm, p)" by (cases row) auto
  from Cons.prems(2) row obtain x where z: "z = Some x" "x < 0"
    and rest: "zscores_all (\<lambda>x. x < 0) rows"
    by (auto simp: zscores_all_Cons)
  show ?case
  proof (cases "x < - 2")
    case True
    define t where "t = \<lparr>trade_kind = LONG, entry_time = tm, entry_price = p,
                           entry_zscore = z, trade_exit = None\<rparr>"
    let ?st = "st\<lparr>position := 1, trades := trades st @ [t],
                  equity_curve := equity_curve st @ [current_equity st]\<rparr>"
    have b: "loop_body 2 0 row st = Inr ?st"
      using Cons.prems(1) z True by (simp add: loop_body_def row flt_def t_def)
    have "run_loop 2 0 rows ?st =
        Inr (?st\<lparr>equity_curve := equity_curve ?st @ replicate (length rows) (current_equity ?st)\<rparr>)"
      using rest by (intro hold_long) simp_all
    with b have "run_loop 2 0 (row # rows) st =
        Inr (st\<lparr>position := 1, trades := trades st @ [t],
               equity_curve := equity_curve st @ replicate (length (row # rows)) (current_equity st)\<rparr>)"
      by (simp add: replicate_app_Cons_same)
    moreover have "trade_kind t = LONG" "trade_exit t = None" by (simp_all add: t_def)
    ultimately show ?thesis by blast
  next
    case False
    let ?st = "st\<lparr>equity_curve := equity_curve st @ [current_equity st]\<rparr>"
    have b: "loop_body 2 0 row st = Inr ?st"
      using Cons.prems(1) z False by (simp add: loop_body_def row flt_def)
    from Cons.prems(3) row z False have some: "zscores_some (\<lambda>x. x < - 3) rows"
      by (auto simp: zscores_some_Cons)
    have "\<exists>t. trade_kind t = LONG \<and> trade_exit t = None
           \<and> run_loop 2 0 rows ?st =
               Inr (?st\<lparr>position := 1, trades := trades ?st @ [t],
                       equity_curve := equity_curve ?st @ replicate (length rows) (current_equity ?st)\<rparr>)"
      using Cons.prems(1) rest some by (intro Cons.IH) simp_all
    then obtain t where t: "trade_kind t = LONG" "trade_exit t = None"
      "run_loop 2 0 rows ?st =
               Inr (?st\<lparr>position := 1, trades := trades ?st @ [t],
                       equity_curve := equity_curve ?st @ replicate (length rows) (current_equity ?st)\<rparr>)"
      by blast
    from b t(3) have "run_loop 2 0 (row # rows) st =
        Inr (st\<lparr>position := 1, trades := trades st @ [t],
               equity_curve := equity_curve st @ replicate (length (row # rows)) (current_equity st)\<rparr>)"
      by (simp add: replicate_app_Cons_same)
    with t(1,2) show ?thesis by blast
  qed
qed

text \<open>A rise above +3 through positive z-scores opens exactly one short trade.\<close>

lemma enter_short:
  assumes "position st = 0" and "zscores_all (\<lambda>x. 0 < x) rows" and "zscores_some (\<lambda>x. 3 < x) rows"
  shows "\<exists>t. trade_kind t = SHORT \<and> trade_exit t = None
           \<and> run_loop 2 0 rows st =
               Inr (st\<lparr>position := - 1, trades := trades st @ [t],
                       equity_curve := equity_curve st @ replicate (length rows) (current_equity st)\<rparr>)"
  using assms
proof (induction rows arbitrary: st)
  case Nil
  then show ?case by simp
next
  case (Cons row rows)
  obtain z tm p where row: "row = (z, tm, p)" by (cases row) auto
  from Cons.prems(2) row obtain x where z: "z = Some x" "0 < x"
    and rest: "zscores_all (\<lambda>x. 0 < x) rows"
    by (auto simp: zscores_all_Cons)
  show ?case
  proof (cases "2 < x")
    case True
    define t where "t = \<lparr>trade_kind = SHORT, entry_time = tm, entry_price = p,
                           entry_zscore = z, trade_exit = None\<rparr>"
    let ?st = "st\<lparr>position := - 1, trades := trades st @ [t],
                  equity_curve := equity_curve st @ [current_equity st]\<rparr>"
    have b: "loop_body 2 0 row st = Inr ?st"
      using Cons.prems(1) z True by (simp add: loop_body_def row flt_def t_def)
    have "run_loop 2 0 rows ?st =
        Inr (?st\<lparr>equity_curve := equity_curve ?st @ replicate (length rows) (current_equity ?st)\<rparr>)"
      using rest by (intro hold_short) simp_all
    with b have "run_loop 2 0 (row # rows) st =
        Inr (st\<lparr>position := - 1, trades := trades st @ [t],
               equity_curve := equity_curve st @ replicate (length (row # rows)) (current_equity st)\<rparr>)"
      by (simp add: replicate_app_Cons_same)
    moreover have "trade_kind t = SHORT" "trade_exit t = None" by (simp_all add: t_def)
    ultimately show ?thesis by blast
  next
    case False
    let ?st = "st\<lparr>equity_curve := equity_curve st @ [current_equity st]\<rparr>"
    have b: "loop_body 2 0 row st = Inr ?st"
      using Cons.prems(1) z False by (simp add: loop_body_def row flt_def)
    from Cons.prems(3) row z False have some: "zscores_some (\<lambda>x. 3 < x) rows"
      by (auto simp: zscores_some_Cons)
    have "\<exists>t. trade_kind t = SHORT \<and> trade_exit t = None
           \<and> run_loop 2 0 rows ?st =
               Inr (?st\<lparr>position := - 1, trades := trades ?st @ [t],
                       equity_curve := equity_curve ?st @ replicate (length rows) (current_equity ?st)\<rparr>)"
      using Cons.prems(1) rest some by (intro Cons.IH) simp_all
    then obtain t where t: "trade_kind t = SHORT" "trade_exit t = None"
      "run_loop 2 0 rows ?st =
               Inr (?st\<lparr>position := - 1, trades := trades ?st @ [t],
                       equity_curve := equity_curve ?st @ replicate (length rows) (current_equity ?st)\<rparr>)"
      by blast
    from b t(3) have "run_loop 2 0 (row # rows) st =
        Inr (st\<lparr>position := - 1, trades := trades st @ [t],
               equity_curve := equity_curve st @ replicate (length (row # rows)) (current_equity st)\<rparr>)"
      by (simp add: replicate_app_Cons_same)
    with t(1,2) show ?thesis by blast
  qed
qed

text \<open>The return to 0 closes the open trade at the first row and stays flat after it.\<close>

lemma exit_at_zero:
  assumes "position st = 1 \<or> position st = - 1" and "trades st = ts @ [t]"
    and "rows \<noteq> []" and "zscores_all (\<lambda>x. x = 0) rows"
  shows "\<exists>x eq ext. length ext = length rows
           \<and> run_loop 2 0 rows st =
               Inr (st\<lparr>position := 0, trades := ts @ [t\<lparr>trade_exit := Some x\<rparr>],
                       current_equity := eq, equity_curve := equity_curve st @ ext\<rparr>)"
proof -
  from assms(3) obtain row rest where rows: "rows = row # rest" by (cases rows) auto
  obtain z tm p where row: "row = (z, tm, p)" by (cases row) auto
  from assms(4) rows row have z: "z = Some 0" and rest: "zscores_all (\<lambda>x. x = 0) rest"
    by (auto simp: zscores_all_Cons)
  from assms(2) have "\<exists>pnl. close_pnl st p = Inr pnl"
    by (simp add: close_pnl_def)
  then obtain pnl where pnl: "close_pnl st p = Inr pnl" by blast
  define eq where "eq = fadd (current_equity st) pnl"
  let ?st = "st\<lparr>position := 0, trades := ts @ [t\<lparr>trade_exit := Some (tm, p, z, pnl)\<rparr>],
                current_equity := eq, equity_curve := equity_curve st @ [eq]\<rparr>"
  have b: "loop_body 2 0 row st = Inr ?st"
    using assms(1,2) z pnl
    by (auto simp: loop_body_def row fle_def update_last_trade_def eq_def)
  from rest have "zscores_all (\<lambda>x. - 2 \<le> x \<and> x \<le> 2) rest"
    by (auto simp: zscores_all_def list_all_iff split: option.splits)
  then have "run_loop 2 0 rest ?st =
      Inr (?st\<lparr>equity_curve := equity_curve ?st @ replicate (length rest) (current_equity ?st)\<rparr>)"
    by (intro hold_flat) simp_all
  with b rows have "run_loop 2 0 rows st =
      Inr (st\<lparr>position := 0, trades := ts @ [t\<lparr>trade_exit := Some (tm, p, z, pnl)\<rparr>],
             current_equity := eq, equity_curve := equity_curve st @ (eq # replicate (length rest) eq)\<rparr>)"
    by simp
  moreover have "length (eq # replicate (length rest) eq) = length rows" using rows by simp
  ultimately show ?thesis by blast
qed

lemma zeros_in_band:
  assumes "zscores_all (\<lambda>x. x = 0) rows"
  shows "zscores_all (\<lambda>x. - 2 \<le> x \<and> x \<le> 2) rows"
  using assms by (auto simp: zscores_all_def list_all_iff split: option.splits)

lemma run_loop_path:
  assumes "zscores_all (\<lambda>x. x = 0) A"
    and "zscores_all (\<lambda>x. x < 0) D" and "zscores_some (\<lambda>x. x < - 3) D"
    and "C \<noteq> []" and "zscores_all (\<lambda>x. x = 0) C"
    and "zscores_all (\<lambda>x. 0 < x) U" and "zscores_some (\<lambda>x. 3 < x) U"
    and "E \<noteq> []" and "zscores_all (\<lambda>x. x = 0) E"
  shows "\<exists>st t1 t2 x1 x2. run_loop 2 0 (A @ D @ C @ U @ E) initial_state = Inr st
           \<and> position st = 0 \<and> trades st = [t1\<lparr>trade_exit := Some x1\<rparr>, t2\<lparr>trade_exit := Some x2\<rparr>]
           \<and> trade_kind t1 = LONG \<and> trade_kind t2 = SHORT
           \<and> length (equity_curve st) = length (A @ D @ C @ U @ E)
           \<and> hd (equity_curve st) = Some 100000"
proof -
  define c where "c = (Some 100000 :: real option)"
  define st1 where "st1 = initial_state\<lparr>equity_curve := replicate (length A) c\<rparr>"
  have s1: "run_loop 2 0 A initial_state = Inr st1"
    using hold_flat [of initial_state A] zeros_in_band [OF assms(1)]
    by (simp add: st1_def c_def initial_state_def)
  have p1: "position st1 = 0" "trades st1 = []" "current_equity st1 = c"
    "equity_curve st1 = replicate (length A) c"
    by (simp_all add: st1_def initial_state_def c_def)
  from enter_long [of st1 D] p1(1) assms(2,3) obtain t1 where t1: "trade_kind t1 = LONG"
    and s2: "run_loop 2 0 D st1 =
       Inr (st1\<lparr>position := 1, trades := trades st1 @ [t1],
               equity_curve := equity_curve st1 @ replicate (length D) (current_equity st1)\<rparr>)"
    by blast
  define st2 where "st2 = st1\<lparr>position := 1, trades := [t1],
               equity_curve := replicate (length A) c @ replicate (length D) c\<rparr>"
  from s2 p1 have s2': "run_loop 2 0 D st1 = Inr st2" by (simp add: st2_def)
  have p2: "position st2 = 1 \<or> position st2 = - 1" "trades st2 = [] @ [t1]"
    "equity_curve st2 = replicate (length A) c @ replicate (length D) c"
    by (simp_all add: st2_def)
  from exit_at_zero [OF p2(1,2) assms(4,5)] obtain x1 eq3 ext3 where l3: "length ext3 = length C"
    and s3: "run_loop 2 0 C st2 =
       Inr (st2\<lparr>position := 0, trades := [] @ [t1\<lparr>trade_exit := Some x1\<rparr>],
               current_equity := eq3, equity_curve := equity_curve st2 @ ext3\<rparr>)"
    by blast
  define st3 where "st3 = st2\<lparr>position := 0, trades := [t1\<lparr>trade_exit := Some x1\<rparr>],
               current_equity := eq3, equity_curve := equity_curve st2 @ ext3\<rparr>"
  from s3 have s3': "run_loop 2 0 C st2 = Inr st3" by (simp add: st3_def)
  have p3: "position st3 = 0" "trades st3 = [t1\<lparr>trade_exit := Some x1\<rparr>]"
    "equity_curve st3 = replicate (length A) c @ replicate (length D) c @ ext3"
    by (simp_all add: st3_def p2(3))
  from enter_short [of st3 U] p3(1) assms(6,7) obtain t2 where t2: "trade_kind t2 = SHORT"
    and s4: "run_loop 2 0 U st3 =
       Inr (st3\<lparr>position := - 1, trades := trades st3 @ [t2],
               equity_curve := equity_curve st3 @ replicate (length U) (current_equity st3)\<rparr>)"
    by blast
  define st4 where "st4 = st3\<lparr>position := - 1, trades := trades st3 @ [t2],
               equity_curve := equity_curve st3 @ replicate (length U) (current_equity st3)\<rparr>"
  from s4 have s4': "run_loop 2 0 U st3 = Inr st4" by (simp add: st4_def)
  have p4: "position st4 = 1 \<or> position st4 = - 1" "trades st4 = [t1\<lparr>trade_exit := Some x1\<rparr>] @ [t2]"
    "length (equity_curve st4) = length A + length D + length C + length U"
    "take (length A + length D) (equity_curve st4) = replicate (length A + length D) c"
    by (simp_all add: st4_def p3 l3 replicate_add)
  from exit_at_zero [OF p4(1,2) assms(8,9)] obtain x2 eq5 ext5 where l5: "length ext5 = length E"
    and s5: "run_loop 2 0 E st4 =
       Inr (st4\<lparr>position := 0, trades := [t1\<lparr>trade_exit := Some x1\<rparr>] @ [t2\<lparr>trade_exit := Some x2\<rparr>],
               current_equity := eq5, equity_curve := equity_curve st4 @ ext5\<rparr>)"
    by blast
  define st5 where "st5 = st4\<lparr>position := 0, trades := [t1\<lparr>trade_exit := Some x1\<rparr>, t2\<lparr>trade_exit := Some x2\<rparr>],
               current_equity := eq5, equity_curve := equity_curve st4 @ ext5\<rparr>"
  from s5 have s5': "run_loop 2 0 E st4 = Inr st5" by (simp add: st5_def)
  have run: "run_loop 2 0 (A @ D @ C @ U @ E) initial_state = Inr st5"
    by (simp add: run_loop_append s1 s2' s3' s4' s5')
  have len: "length (equity_curve st5) = length (A @ D @ C @ U @ E)"
    by (simp add: st5_def p4(3) l5)
  from assms(3) have "D \<noteq> []" by auto
  then have pos: "0 < length A + length D" by simp
  have "take (length A + length D) (equity_curve st5) = replicate (length A + length D) c"
    using p4(3,4) by (simp add: st5_def)
  then have "hd (take (length A + length D) (equity_curve st5)) = c"
    using pos by (simp add: hd_replicate)
  then have hd: "hd (equity_curve st5) = Some 100000"
    using pos by (simp add: c_def)
  have "position st5 = 0" "trades st5 = [t1\<lparr>trade_exit := Some x1\<rparr>, t2\<lparr>trade_exit := Some x2\<rparr>]"
    by (simp_all add: st5_def)
  with run t1 t2 len hd show ?thesis by blast
qed

text \<open>
  C3. Take entry threshold 2 and exit threshold 0, and let the z-scores of the spread at
  the positions the loop visits (from \<open>window\<close> on) be 0, then negative with a dip below
  -3, then 0 again, then positive with a rise above +3, then 0 again. Then \<open>run\<close> reports
  exactly two completed trades, first a long and then a short, and the returned equity curve
  has length \<open>len(spread) - window\<close> and starts at 100,000.
\<close>

theorem backtest_two_trades:
  assumes "compute_zscore spread window = Inr zscore"
    and "drop (nat window) (zip (map snd zscore) spread) = A @ D @ C @ U @ E"
    and "zscores_all (\<lambda>x. x = 0) A"
    and "zscores_all (\<lambda>x. x < 0) D" and "zscores_some (\<lambda>x. x < - 3) D"
    and "C \<noteq> []" and "zscores_all (\<lambda>x. x = 0) C"
    and "zscores_all (\<lambda>x. 0 < x) U" and "zscores_some (\<lambda>x. 3 < x) U"
    and "E \<noteq> []" and "zscores_all (\<lambda>x. x = 0) E"
  shows "\<exists>res. run 2 0 spread window = Inr (Stats res)
           \<and> total_trades res = 2
           \<and> map trade_kind (result_trades res) = [LONG, SHORT]
           \<and> list_all (\<lambda>t. trade_exit t \<noteq> None) (result_trades res)
           \<and> window \<le> int (length spread)
           \<and> length (result_equity_curve res) = length spread - nat window
           \<and> hd (result_equity_curve res) = Some 100000"
proof -
  have wl: "window \<le> int (length spread)"
  proof (rule ccontr)
    assume "\<not> window \<le> int (length spread)"
    then have "zscore = []" using assms(1) by (intro zscore_short [of spread window]) simp_all
    with assms(2,6) show False by simp
  qed
  from zscore_nth [OF assms(1) wl] have lz: "length zscore = length spread" by simp
  have lr: "length (A @ D @ C @ U @ E) = length spread - nat window"
    unfolding assms(2) [symmetric] using lz by simp
  from run_loop_path [OF assms(3-11)] obtain st t1 t2 x1 x2 where
    rl: "run_loop 2 0 (A @ D @ C @ U @ E) initial_state = Inr st"
    and pos: "position st = 0"
    and tr: "trades st = [t1\<lparr>trade_exit := Some x1\<rparr>, t2\<lparr>trade_exit := Some x2\<rparr>]"
    and k: "trade_kind t1 = LONG" "trade_kind t2 = SHORT"
    and len: "length (equity_curve st) = length (A @ D @ C @ U @ E)"
    and hd: "hd (equity_curve st) = Some 100000" by blast
  have cl: "close_open_position spread zscore st = Inr st"
    using pos by (simp add: close_open_position_def)
  have run: "run 2 0 spread window = Inr (statistics st)"
    using wl assms(1,2) rl cl by (simp add: run_def)
  have f: "filter (\<lambda>t. trade_exit t \<noteq> None) (trades st) = trades st"
    unfolding tr by (simp del: not_None_eq)
  have ne: "trades st \<noteq> []" and l2: "length (trades st) = 2" by (simp_all add: tr)
  have "\<exists>res. statistics st = Stats res \<and> total_trades res = 2
           \<and> result_trades res = trades st \<and> result_equity_curve res = equity_curve st"
    unfolding statistics_def Let_def f using ne l2 by simp
  then obtain res where res: "statistics st = Stats res" "total_trades res = 2"
    "result_trades res = trades st" "result_equity_curve res = equity_curve st"
    by blast
  have la: "list_all (\<lambda>t. trade_exit t \<noteq> None) (result_trades res)"
    unfolding res(3) tr by (simp del: not_None_eq)
  have kinds: "map trade_kind (result_trades res) = [LONG, SHORT]"
    unfolding res(3) tr using k by simp
  have c1: "length (result_equity_curve res) = length spread - nat window"
    using res(4) len lr by simp
  have c2: "hd (result_equity_curve res) = Some 100000" using res(4) hd by simp
  from run res(1) have "run 2 0 spread window = Inr (Stats res)" by simp
  with res(2) kinds la wl c1 c2 show ?thesis by (intro exI [of _ res] conjI)
qed

lemma drop_16_of_21:
  assumes "length xs = 21"
  shows "drop 16 xs = [xs ! 16, xs ! 17, xs ! 18, xs ! 19, xs ! 20]"
proof (rule nth_equalityI)
  show "length (drop 16 xs) = length [xs ! 16, xs ! 17, xs ! 18, xs ! 19, xs ! 20]"
    using assms by simp
next
  fix i assume "i < length (drop 16 xs)"
  with assms have "i < 5" by simp
  then consider "i = 0" | "i = 1" | "i = 2" | "i = 3" | "i = 4" by linarith
  then show "drop 16 xs ! i = [xs ! 16, xs ! 17, xs ! 18, xs ! 19, xs ! 20] ! i"
    using assms by cases simp_all
qed

lemma div_sqrt_below:
  assumes "a < 0" and "0 < q" and "9 * q < a\<^sup>2"
  shows "a / sqrt q < - 3"
proof -
  have "sqrt (9 * q) < - a"
    using assms by (intro real_less_lsqrt) simp_all
  moreover have "sqrt (9 * q) = 3 * sqrt q"
    using real_sqrt_mult [of 9 q] by simp
  ultimately have "3 * sqrt q < - a" by simp
  moreover have "0 < sqrt q" using assms(2) by simp
  ultimately show ?thesis by (simp add: pos_divide_less_eq)
qed

lemma div_sqrt_above:
  assumes "0 < a" and "0 < q" and "9 * q < a\<^sup>2"
  shows "3 < a / sqrt q"
proof -
  have "sqrt (9 * q) < a"
    using assms by (intro real_less_lsqrt) simp_all
  moreover have "sqrt (9 * q) = 3 * sqrt q"
    using real_sqrt_mult [of 9 q] by simp
  ultimately have "3 * sqrt q < a" by simp
  moreover have "0 < sqrt q" using assms(2) by simp
  ultimately show ?thesis by (simp add: pos_less_divide_eq)
qed

lemma len_spread_a: "length spread_a = 21"
  by (simp add: spread_a_def)

lemma spread_a_window16: "window_values 16 16 (map snd spread_a) = map Some [1, - 1, 1, - 1, 1, - 1, 1, - 1, 1, - 1, 1, - 1, 1, - 1, 0, 0]"
  by (simp add: window_values_def spread_a_def)

lemma spread_a_window17: "window_values 16 17 (map snd spread_a) = map Some [- 1, 1, - 1, 1, - 1, 1, - 1, 1, - 1, 1, - 1, 1, - 1, 0, 0, - 150]"
  by (simp add: window_values_def spread_a_def)

lemma spread_a_window18: "window_values 16 18 (map snd spread_a) = map Some [1, - 1, 1, - 1, 1, - 1, 1, - 1, 1, - 1, 1, - 1, 0, 0, - 150, - 10]"
  by (simp add: window_values_def spread_a_def)

lemma spread_a_window19: "window_values 16 19 (map snd spread_a) = map Some [- 1, 1, - 1, 1, - 1, 1, - 1, 1, - 1, 1, - 1, 0, 0, - 150, - 10, 10660]"
  by (simp add: window_values_def spread_a_def)

lemma spread_a_window20: "window_values 16 20 (map snd spread_a) = map Some [1, - 1, 1, - 1, 1, - 1, 1, - 1, 1, - 1, 0, 0, - 150, - 10, 10660, 700]"
  by (simp add: window_values_def spread_a_def)

lemma those_map_Some_list: "those (map Some ys) = Some ys"
  by (induction ys) simp_all

lemma rolling_at:
  assumes "i < length xs" and "\<not> i + 1 < w" and "window_values w i xs = map Some ys" and "need \<le> length ys"
  shows "rolling w need f xs ! i = Some (f ys)"
  using assms by (simp add: rolling_nth those_map_Some_list)


lemma spread_a_mean16: "mean [1, - 1, 1, - 1, 1, - 1, 1, - 1, 1, - 1, 1, - 1, 1, - 1, 0, 0] = 0"
  by (simp add: mean_def)

lemma spread_a_std16: "sample_std [1, - 1, 1, - 1, 1, - 1, 1, - 1, 1, - 1, 1, - 1, 1, - 1, 0, 0] = sqrt (14 / 15)"
  unfolding sample_std_def spread_a_mean16 by (simp add: power2_eq_square)

lemma spread_a_zscore16:
  assumes "compute_zscore spread_a 16 = Inr zs"
  shows "snd (zs ! 16) = fdiv (Some (0 - (0))) (Some (sqrt (14 / 15)))"
proof -
  have wl: "16 \<le> int (length spread_a)" by (simp add: len_spread_a)
  from zscore_nth [OF assms wl] have
    "snd (zs ! 16) = fdiv (fsub (snd (spread_a ! 16)) (rolling (nat 16) 1 mean (map snd spread_a) ! 16))
                  (rolling (nat 16) 2 sample_std (map snd spread_a) ! 16)"
    by (simp add: len_spread_a)
  moreover have "rolling (nat 16) 1 mean (map snd spread_a) ! 16 = Some (0)"
    using rolling_at [of 16 "map snd spread_a" 16 "[1, - 1, 1, - 1, 1, - 1, 1, - 1, 1, - 1, 1, - 1, 1, - 1, 0, 0]" 1 mean]
    by (simp add: len_spread_a spread_a_window16 spread_a_mean16)
  moreover have "rolling (nat 16) 2 sample_std (map snd spread_a) ! 16 = Some (sqrt (14 / 15))"
    using rolling_at [of 16 "map snd spread_a" 16 "[1, - 1, 1, - 1, 1, - 1, 1, - 1, 1, - 1, 1, - 1, 1, - 1, 0, 0]" 2 sample_std]
    by (simp add: len_spread_a spread_a_window16 spread_a_std16)
  moreover have "snd (spread_a ! 16) = Some (0)" by (simp add: spread_a_def)
  ultimately show ?thesis by (simp add: fsub_def)
qed

lemma spread_a_mean17: "mean [- 1, 1, - 1, 1, - 1, 1, - 1, 1, - 1, 1, - 1, 1, - 1, 0, 0, - 150] = - 151 / 16"
  by (simp add: mean_def)

lemma spread_a_std17: "sample_std [- 1, 1, - 1, 1, - 1, 1, - 1, 1, - 1, 1, - 1, 1, - 1, 0, 0, - 150] = sqrt (112469 / 80)"
  unfolding sample_std_def spread_a_mean17 by (simp add: power2_eq_square)

lemma spread_a_zscore17:
  assumes "compute_zscore spread_a 16 = Inr zs"
  shows "snd (zs ! 17) = fdiv (Some (- 150 - (- 151 / 16))) (Some (sqrt (112469 / 80)))"
proof -
  have wl: "16 \<le> int (length spread_a)" by (simp add: len_spread_a)
  from zscore_nth [OF assms wl] have
    "snd (zs ! 17) = fdiv (fsub (snd (spread_a ! 17)) (rolling (nat 16) 1 mean (map snd spread_a) ! 17))
                  (rolling (nat 16) 2 sample_std (map snd spread_a) ! 17)"
    by (simp add: len_spread_a)
  moreover have "rolling (nat 16) 1 mean (map snd spread_a) ! 17 = Some (- 151 / 16)"
    using rolling_at [of 17 "map snd spread_a" 16 "[- 1, 1, - 1, 1, - 1, 1, - 1, 1, - 1, 1, - 1, 1, - 1, 0, 0, - 150]" 1 mean]
    by (simp add: len_spread_a spread_a_window17 spread_a_mean17)
  moreover have "rolling (nat 16) 2 sample_std (map snd spread_a) ! 17 = Some (sqrt (112469 / 80))"
    using rolling_at [of 17 "map snd spread_a" 16 "[- 1, 1, - 1, 1, - 1, 1, - 1, 1, - 1, 1, - 1, 1, - 1, 0, 0, - 150]" 2 sample_std]
    by (simp add: len_spread_a spread_a_window17 spread_a_std17)
  moreover have "snd (spread_a ! 17) = Some (- 150)" by (simp add: spread_a_def)
  ultimately show ?thesis by (simp add: fsub_def)
qed

lemma spread_a_mean18: "mean [1, - 1, 1, - 1, 1, - 1, 1, - 1, 1, - 1, 1, - 1, 0, 0, - 150, - 10] = - 10"
  by (simp add: mean_def)

lemma spread_a_std18: "sample_std [1, - 1, 1, - 1, 1, - 1, 1, - 1, 1, - 1, 1, - 1, 0, 0, - 150, - 10] = sqrt (7004 / 5)"
  unfolding sample_std_def spread_a_mean18 by (simp add: power2_eq_square)

lemma spread_a_zscore18:
  assumes "compute_zscore spread_a 16 = Inr zs"
  shows "snd (zs ! 18) = fdiv (Some (- 10 - (- 10))) (Some (sqrt (7004 / 5)))"
proof -
  have wl: "16 \<le> int (length spread_a)" by (simp add: len_spread_a)
  from zscore_nth [OF assms wl] have
    "snd (zs ! 18) = fdiv (fsub (snd (spread_a ! 18)) (rolling (nat 16) 1 mean (map snd spread_a) ! 18))
                  (rolling (nat 16) 2 sample_std (map snd spread_a) ! 18)"
    by (simp add: len_spread_a)
  moreover have "rolling (nat 16) 1 mean (map snd spread_a) ! 18 = Some (- 10)"
    using rolling_at [of 18 "map snd spread_a" 16 "[1, - 1, 1, - 1, 1, - 1, 1, - 1, 1, - 1, 1, - 1, 0, 0, - 150, - 10]" 1 mean]
    by (simp add: len_spread_a spread_a_window18 spread_a_mean18)
  moreover have "rolling (nat 16) 2 sample_std (map snd spread_a) ! 18 = Some (sqrt (7004 / 5))"
    using rolling_at [of 18 "map snd spread_a" 16 "[1, - 1, 1, - 1, 1, - 1, 1, - 1, 1, - 1, 1, - 1, 0, 0, - 150, - 10]" 2 sample_std]
    by (simp add: len_spread_a spread_a_window18 spread_a_std18)
  moreover have "snd (spread_a ! 18) = Some (- 10)" by (simp add: spread_a_def)
  ultimately show ?thesis by (simp add: fsub_def)
qed

lemma spread_a_mean19: "mean [- 1, 1, - 1, 1, - 1, 1, - 1, 1, - 1, 1, - 1, 0, 0, - 150, - 10, 10660] = 10499 / 16"
  by (simp add: mean_def)

lemma spread_a_std19: "sample_std [- 1, 1, - 1, 1, - 1, 1, - 1, 1, - 1, 1, - 1, 0, 0, - 150, - 10, 10660] = sqrt (113886825 / 16)"
  unfolding sample_std_def spread_a_mean19 by (simp add: power2_eq_square)

lemma spread_a_zscore19:
  assumes "compute_zscore spread_a 16 = Inr zs"
  shows "snd (zs ! 19) = fdiv (Some (10660 - (10499 / 16))) (Some (sqrt (113886825 / 16)))"
proof -
  have wl: "16 \<le> int (length spread_a)" by (simp add: len_spread_a)
  from zscore_nth [OF assms wl] have
    "snd (zs ! 19) = fdiv (fsub (snd (spread_a ! 19)) (rolling (nat 16) 1 mean (map snd spread_a) ! 19))
                  (rolling (nat 16) 2 sample_std (map snd spread_a) ! 19)"
    by (simp add: len_spread_a)
  moreover have "rolling (nat 16) 1 mean (map snd spread_a) ! 19 = Some (10499 / 16)"
    using rolling_at [of 19 "map snd spread_a" 16 "[- 1, 1, - 1, 1, - 1, 1, - 1, 1, - 1, 1, - 1, 0, 0, - 150, - 10, 10660]" 1 mean]
    by (simp add: len_spread_a spread_a_window19 spread_a_mean19)
  moreover have "rolling (nat 16) 2 sample_std (map snd spread_a) ! 19 = Some (sqrt (113886825 / 16))"
    using rolling_at [of 19 "map snd spread_a" 16 "[- 1, 1, - 1, 1, - 1, 1, - 1, 1, - 1, 1, - 1, 0, 0, - 150, - 10, 10660]" 2 sample_std]
    by (simp add: len_spread_a spread_a_window19 spread_a_std19)
  moreover have "snd (spread_a ! 19) = Some (10660)" by (simp add: spread_a_def)
  ultimately show ?thesis by (simp add: fsub_def)
qed

lemma spread_a_mean20: "mean [1, - 1, 1, - 1, 1, - 1, 1, - 1, 1, - 1, 0, 0, - 150, - 10, 10660, 700] = 700"
  by (simp add: mean_def)

lemma spread_a_std20: "sample_std [1, - 1, 1, - 1, 1, - 1, 1, - 1, 1, - 1, 0, 0, - 150, - 10, 10660, 700] = sqrt (7087214)"
  unfolding sample_std_def spread_a_mean20 by (simp add: power2_eq_square)

lemma spread_a_zscore20:
  assumes "compute_zscore spread_a 16 = Inr zs"
  shows "snd (zs ! 20) = fdiv (Some (700 - (700))) (Some (sqrt (7087214)))"
proof -
  have wl: "16 \<le> int (length spread_a)" by (simp add: len_spread_a)
  from zscore_nth [OF assms wl] have
    "snd (zs ! 20) = fdiv (fsub (snd (spread_a ! 20)) (rolling (nat 16) 1 mean (map snd spread_a) ! 20))
                  (rolling (nat 16) 2 sample_std (map snd spread_a) ! 20)"
    by (simp add: len_spread_a)
  moreover have "rolling (nat 16) 1 mean (map snd spread_a) ! 20 = Some (700)"
    using rolling_at [of 20 "map snd spread_a" 16 "[1, - 1, 1, - 1, 1, - 1, 1, - 1, 1, - 1, 0, 0, - 150, - 10, 10660, 700]" 1 mean]
    by (simp add: len_spread_a spread_a_window20 spread_a_mean20)
  moreover have "rolling (nat 16) 2 sample_std (map snd spread_a) ! 20 = Some (sqrt (7087214))"
    using rolling_at [of 20 "map snd spread_a" 16 "[1, - 1, 1, - 1, 1, - 1, 1, - 1, 1, - 1, 0, 0, - 150, - 10, 10660, 700]" 2 sample_std]
    by (simp add: len_spread_a spread_a_window20 spread_a_std20)
  moreover have "snd (spread_a ! 20) = Some (700)" by (simp add: spread_a_def)
  ultimately show ?thesis by (simp add: fsub_def)
qed


theorem backtest_two_trades_witness:
  "\<exists>zs res. compute_zscore spread_a 16 = Inr zs
     \<and> zscores_some (\<lambda>x. x < - 3) [(snd (zs ! 17), 17, Some (- 150))]
     \<and> zscores_some (\<lambda>x. 3 < x) [(snd (zs ! 19), 19, Some 10660)]
     \<and> run 2 0 spread_a 16 = Inr (Stats res) \<and> total_trades res = 2
     \<and> map trade_kind (result_trades res) = [LONG, SHORT]
     \<and> length (result_equity_curve res) = 5 \<and> hd (result_equity_curve res) = Some 100000"
proof -
  obtain zs where zs: "compute_zscore spread_a 16 = Inr zs"
    by (simp add: compute_zscore_def len_spread_a Let_def)
  have wl: "16 \<le> int (length spread_a)" by (simp add: len_spread_a)
  from zscore_nth [OF zs wl] have lz: "length zs = 21" by (simp add: len_spread_a)
  have lzip: "length (zip (map snd zs) spread_a) = 21" by (simp add: lz len_spread_a)
  have rows: "drop (nat 16) (zip (map snd zs) spread_a) =
      [(snd (zs ! 16), 16, Some 0)] @ [(snd (zs ! 17), 17, Some (- 150))]
        @ [(snd (zs ! 18), 18, Some (- 10))] @ [(snd (zs ! 19), 19, Some 10660)]
        @ [(snd (zs ! 20), 20, Some 700)]"
    using drop_16_of_21 [OF lzip] by (simp add: lz len_spread_a) (simp add: spread_a_def)
  have v17: "snd (zs ! 17) = Some ((- 150 - (- 151 / 16)) / sqrt (112469 / 80))"
    by (simp add: spread_a_zscore17 [OF zs] fdiv_def)
  have v19: "snd (zs ! 19) = Some ((10660 - 10499 / 16) / sqrt (113886825 / 16))"
    by (simp add: spread_a_zscore19 [OF zs] fdiv_def)
  have n17: "(- 150 - (- 151 / 16)) / sqrt (112469 / 80) < (- 3 :: real)"
    by (rule div_sqrt_below) (simp_all add: power2_eq_square)
  have n19: "(3 :: real) < (10660 - 10499 / 16) / sqrt (113886825 / 16)"
    by (rule div_sqrt_above) (simp_all add: power2_eq_square)
  have A: "zscores_all (\<lambda>x. x = 0) [(snd (zs ! 16), 16, Some 0)]"
    by (simp add: zscores_all_def spread_a_zscore16 [OF zs] fdiv_def)
  have D1: "zscores_all (\<lambda>x. x < 0) [(snd (zs ! 17), 17, Some (- 150))]"
    using n17 by (simp add: zscores_all_def v17 del: divide_less_0_iff)
  have D2: "zscores_some (\<lambda>x. x < - 3) [(snd (zs ! 17), 17, Some (- 150))]"
    using n17 by (simp add: zscores_some_def v17)
  have C: "zscores_all (\<lambda>x. x = 0) [(snd (zs ! 18), 18, Some (- 10))]"
    by (simp add: zscores_all_def spread_a_zscore18 [OF zs] fdiv_def)
  have U1: "zscores_all (\<lambda>x. 0 < x) [(snd (zs ! 19), 19, Some 10660)]"
    using n19 by (simp add: zscores_all_def v19 del: zero_less_divide_iff)
  have U2: "zscores_some (\<lambda>x. 3 < x) [(snd (zs ! 19), 19, Some 10660)]"
    using n19 by (simp add: zscores_some_def v19)
  have E: "zscores_all (\<lambda>x. x = 0) [(snd (zs ! 20), 20, Some 700)]"
    by (simp add: zscores_all_def spread_a_zscore20 [OF zs] fdiv_def)
  from backtest_two_trades [OF zs rows A D1 D2 _ C U1 U2 _ E]
  obtain res where "run 2 0 spread_a 16 = Inr (Stats res)" "total_trades res = 2"
    "map trade_kind (result_trades res) = [LONG, SHORT]"
    "length (result_equity_curve res) = length spread_a - nat 16"
    "hd (result_equity_curve res) = Some 100000"
    by auto
  with zs D2 U2 show ?thesis by (auto simp: len_spread_a)
qed

end
